theory Spec2Isabelle
  imports Main "HOL-Library.AList"
begin

section \<open>State data: JSON values and paths\<close>

text \<open>
  The state of a Step Functions execution is a JSON document. Objects are association
  lists, in the order of their fields.
\<close>

datatype json =
    JNull
  | JBool bool
  | JNum int
  | JStr string
  | JArr "json list"
  | JObj "(string \<times> json) list"

text \<open>
  A JSON path of the form \<^verbatim>\<open>$.a.b.c\<close>, the only form the construct and its callers use,
  is the list of its field names: \<^verbatim>\<open>$.getResumeToken.Item.token.S\<close> is
  \<open>[''getResumeToken'', ''Item'', ''token'', ''S'']\<close> and \<^verbatim>\<open>$\<close> is \<open>[]\<close>.
\<close>

type_synonym path = "string list"

text \<open>Reading a path; a field that is missing makes the path fail.\<close>

fun get_path :: "path \<Rightarrow> json \<Rightarrow> json option" where
  "get_path [] j = Some j"
| "get_path (k # ks) (JObj kvs) =
     (case map_of kvs k of None \<Rightarrow> None | Some v \<Rightarrow> get_path ks v)"
| "get_path (k # ks) _ = None"

text \<open>
  Writing a value at a path, as a \<^verbatim>\<open>ResultPath\<close> does: the field is overwritten when
  the input has it and created otherwise; a path through a value that is not an object
  fails.
\<close>

fun set_path :: "path \<Rightarrow> json \<Rightarrow> json \<Rightarrow> json option" where
  "set_path [] v j = Some v"
| "set_path (k # ks) v (JObj kvs) =
     (case set_path ks v (case map_of kvs k of None \<Rightarrow> JObj [] | Some c \<Rightarrow> c) of
        None \<Rightarrow> None
      | Some c' \<Rightarrow> Some (JObj (AList.update k c' kvs)))"
| "set_path (k # ks) v _ = None"

text \<open>
  \<^verbatim>\<open>resultPath\<close>: \<open>None\<close> is \<^verbatim>\<open>sfn.JsonPath.DISCARD\<close> (the result is dropped and the
  state's input is its output), \<open>Some p\<close> writes the result into the input at \<open>p\<close>.
\<close>

fun apply_result_path :: "path option \<Rightarrow> json \<Rightarrow> json \<Rightarrow> json option" where
  "apply_result_path None input r = Some input"
| "apply_result_path (Some p) input r = set_path p r input"

definition string_at :: "path \<Rightarrow> json \<Rightarrow> string option" where
  "string_at p j = (case get_path p j of Some (JStr s) \<Rightarrow> Some s | _ \<Rightarrow> None)"

section \<open>Task parameters\<close>

text \<open>
  The \<^verbatim>\<open>parameters\<close> of a task: literal JSON, a value read from the state's input
  (\<^verbatim>\<open>sfn.JsonPath.stringAt(p)\<close>, a field written \<^verbatim>\<open>"k.$": p\<close>), the task token of the
  context object (\<^verbatim>\<open>sfn.JsonPath.taskToken\<close>), or an object of parameters.
\<close>

datatype param =
    Lit json
  | stringAt path
  | taskToken
  | Obj "(string \<times> param) list"

text \<open>
  The engine resolves the parameters against the state's input before it calls the
  service; a path that is not in the input fails the state (\<^verbatim>\<open>States.Runtime\<close>) and no
  call is made.
\<close>

fun resolve :: "string \<Rightarrow> json \<Rightarrow> param \<Rightarrow> json option"
  and resolve_fields :: "string \<Rightarrow> json \<Rightarrow> (string \<times> param) list \<Rightarrow> (string \<times> json) list option"
where
  "resolve tok s (Lit j) = Some j"
| "resolve tok s (stringAt p) = get_path p s"
| "resolve tok s taskToken = Some (JStr tok)"
| "resolve tok s (Obj kps) =
     (case resolve_fields tok s kps of None \<Rightarrow> None | Some kvs \<Rightarrow> Some (JObj kvs))"
| "resolve_fields tok s [] = Some []"
| "resolve_fields tok s (kp # kps) =
     (case resolve tok s (snd kp) of
        None \<Rightarrow> None
      | Some v \<Rightarrow>
          (case resolve_fields tok s kps of
             None \<Rightarrow> None
           | Some kvs \<Rightarrow> Some ((fst kp, v) # kvs)))"

section \<open>The services the tasks call\<close>

datatype error =
    States_Runtime
  | States_ResultPathMatchFailure
  | DynamoDB_ValidationException
  | DynamoDB_ConditionalCheckFailedException
  | Sfn_ValidationException
  | Sfn_TaskTimedOut

text \<open>One service call as the world saw it: what was called, with what, and the answer.\<close>

record call =
  c_service :: string
  c_action :: string
  c_params :: json
  c_result :: "error + json"

text \<open>
  The partition key of the construct's table is the string attribute \<^verbatim>\<open>id\<close>. DynamoDB
  takes a string of 1 to 2048 bytes as a partition key and answers any other with a
  \<^verbatim>\<open>ValidationException\<close>, so the keys a table can hold are these strings.
\<close>

definition valid_key :: "string \<Rightarrow> bool" where
  "valid_key s \<longleftrightarrow> s \<noteq> [] \<and> length s \<le> 2048"

typedef key = "{s. valid_key s}"
  morphisms key_string Key
  by (rule exI [of _ "''k''"]) (simp add: valid_key_def)

text \<open>
  The world outside a run: the construct's one DynamoDB table (each key mapped to the
  stored item) as its latest writes left it; the copy of the table that an eventually
  consistent read is answered from, which lags behind the writes until they have
  propagated; the executions the engine has parked on a task token (with the
  \<^verbatim>\<open>resultPath\<close> and the input of the task they wait in); the state with which each
  resumed execution left its task; and the service calls made so far.
\<close>

record world =
  table :: "key \<rightharpoonup> json"
  replica :: "key \<rightharpoonup> json"
  parked :: "string \<rightharpoonup> (path option \<times> json)"
  resumed :: "string \<rightharpoonup> json option"
  calls :: "call list"

text \<open>The writes that have been made reach the copy: the environment's step.\<close>

definition propagate :: "world \<Rightarrow> world" where
  "propagate w = w\<lparr>replica := table w\<rparr>"

text \<open>
  \<^verbatim>\<open>dynamodb:putItem\<close>. The key must be a string DynamoDB takes as a key. With
  \<^verbatim>\<open>ConditionExpression: "attribute_not_exists(id)"\<close> the put fails when an item with
  this key is in the table (every item holds its key attribute \<^verbatim>\<open>id\<close>; the condition
  is checked on the latest writes); without a condition it overwrites.
\<close>

definition putItem :: "json \<Rightarrow> world \<Rightarrow> (error + json) \<times> world" where
  "putItem ps w =
     (case (string_at [''Item'', ''id'', ''S''] ps, get_path [''Item''] ps) of
        (Some s, Some item) \<Rightarrow>
          if \<not> valid_key s then (Inl DynamoDB_ValidationException, w)
          else
            (case get_path [''ConditionExpression''] ps of
               None \<Rightarrow> (Inr (JObj []), w\<lparr>table := (table w)(Key s \<mapsto> item)\<rparr>)
             | Some c \<Rightarrow>
                 if c \<noteq> JStr ''attribute_not_exists(id)''
                 then (Inl DynamoDB_ValidationException, w)
                 else if table w (Key s) \<noteq> None
                 then (Inl DynamoDB_ConditionalCheckFailedException, w)
                 else (Inr (JObj []), w\<lparr>table := (table w)(Key s \<mapsto> item)\<rparr>))
      | _ \<Rightarrow> (Inl DynamoDB_ValidationException, w))"

text \<open>
  \<^verbatim>\<open>dynamodb:getItem\<close>. The key must be a string DynamoDB takes as a key. With
  \<^verbatim>\<open>ConsistentRead: true\<close> the read sees the latest writes; otherwise it is eventually
  consistent and is answered from the copy, which may not have a recent write yet. The
  answer has the field \<^verbatim>\<open>Item\<close> only when the key is found.
\<close>

fun item_answer :: "json option \<Rightarrow> json" where
  "item_answer None = JObj []"
| "item_answer (Some item) = JObj [(''Item'', item)]"

definition getItem :: "json \<Rightarrow> world \<Rightarrow> (error + json) \<times> world" where
  "getItem ps w =
     (case string_at [''Key'', ''id'', ''S''] ps of
        None \<Rightarrow> (Inl DynamoDB_ValidationException, w)
      | Some s \<Rightarrow>
          if \<not> valid_key s then (Inl DynamoDB_ValidationException, w)
          else if get_path [''ConsistentRead''] ps = Some (JBool True)
          then (Inr (item_answer (table w (Key s))), w)
          else (Inr (item_answer (replica w (Key s))), w))"

text \<open>
  \<^verbatim>\<open>dynamodb:deleteItem\<close>. The key must be a string DynamoDB takes as a key; deleting a
  key that is not in the table is not an error.
\<close>

definition deleteItem :: "json \<Rightarrow> world \<Rightarrow> (error + json) \<times> world" where
  "deleteItem ps w =
     (case string_at [''Key'', ''id'', ''S''] ps of
        None \<Rightarrow> (Inl DynamoDB_ValidationException, w)
      | Some s \<Rightarrow>
          if \<not> valid_key s then (Inl DynamoDB_ValidationException, w)
          else (Inr (JObj []), w\<lparr>table := (table w)(Key s := None)\<rparr>))"

text \<open>
  \<^verbatim>\<open>sfn:sendTaskSuccess\<close>: the engine accepts the signal when an execution is parked on
  the token, and then that execution leaves its task with the task's \<^verbatim>\<open>resultPath\<close>
  applied to the signal's output; it rejects a token nobody waits on.
\<close>

definition sendTaskSuccess_api :: "json \<Rightarrow> world \<Rightarrow> (error + json) \<times> world" where
  "sendTaskSuccess_api ps w =
     (case (string_at [''TaskToken''] ps, get_path [''Output''] ps) of
        (Some t, Some out) \<Rightarrow>
          (case parked w t of
             None \<Rightarrow> (Inl Sfn_TaskTimedOut, w)
           | Some (rp, input) \<Rightarrow>
               (Inr (JObj []),
                w\<lparr>parked := (parked w)(t := None),
                  resumed := (resumed w)(t \<mapsto> apply_result_path rp input out)\<rparr>))
      | _ \<Rightarrow> (Inl Sfn_ValidationException, w))"

text \<open>A call is dispatched on \<^verbatim>\<open>service\<close> and \<^verbatim>\<open>action\<close> and recorded with its answer.\<close>

definition call_aws :: "string \<Rightarrow> string \<Rightarrow> json \<Rightarrow> world \<Rightarrow> (error + json) \<times> world" where
  "call_aws svc act ps w =
     (let (r, w') =
        (if svc = ''dynamodb'' \<and> act = ''putItem'' then putItem ps w
         else if svc = ''dynamodb'' \<and> act = ''getItem'' then getItem ps w
         else if svc = ''dynamodb'' \<and> act = ''deleteItem'' then deleteItem ps w
         else if svc = ''sfn'' \<and> act = ''sendTaskSuccess'' then sendTaskSuccess_api ps w
         else (Inl States_Runtime, w))
      in (r, w'\<lparr>calls := calls w' @
            [\<lparr>c_service = svc, c_action = act, c_params = ps, c_result = r\<rparr>]\<rparr>))"

section \<open>Task states and their execution\<close>

datatype integration_pattern = REQUEST_RESPONSE | WAIT_FOR_TASK_TOKEN

text \<open>
  A task state as the construct configures it. \<open>retry\<close> is the state's retrier (the
  errors it retries and how many times); a task built without \<^verbatim>\<open>addRetry\<close> has none. No
  task of the construct has a catcher, so a failed task fails its execution.
\<close>

record task =
  task_id :: string
  resultPath :: "path option"
  service :: string
  action :: string
  integrationPattern :: integration_pattern
  parameters :: param
  retry :: "(error list \<times> nat) option"

datatype task_result = TaskFailed error | TaskSucceeded json | TaskParked

text \<open>
  One attempt of a task: resolve the parameters, call the service, and either write the
  result at the result path (request-response) or park the execution on its task token
  (wait-for-task-token).
\<close>

definition attempt_task :: "task \<Rightarrow> string \<Rightarrow> json \<Rightarrow> world \<Rightarrow> task_result \<times> world" where
  "attempt_task t tok s w =
     (case resolve tok s (parameters t) of
        None \<Rightarrow> (TaskFailed States_Runtime, w)
      | Some ps \<Rightarrow>
          (case call_aws (service t) (action t) ps w of
             (Inl e, w') \<Rightarrow> (TaskFailed e, w')
           | (Inr r, w') \<Rightarrow>
               (case integrationPattern t of
                  REQUEST_RESPONSE \<Rightarrow>
                    (case apply_result_path (resultPath t) s r of
                       None \<Rightarrow> (TaskFailed States_ResultPathMatchFailure, w')
                     | Some s' \<Rightarrow> (TaskSucceeded s', w'))
                | WAIT_FOR_TASK_TOKEN \<Rightarrow>
                    (TaskParked, w'\<lparr>parked := (parked w')(tok \<mapsto> (resultPath t, s))\<rparr>))))"

definition retry_errors :: "task \<Rightarrow> error list" where
  "retry_errors t = (case retry t of None \<Rightarrow> [] | Some (es, n) \<Rightarrow> es)"

definition retry_max :: "task \<Rightarrow> nat" where
  "retry_max t = (case retry t of None \<Rightarrow> 0 | Some (es, n) \<Rightarrow> n)"

primrec retry_task :: "nat \<Rightarrow> task \<Rightarrow> string \<Rightarrow> json \<Rightarrow> world \<Rightarrow> task_result \<times> world" where
  "retry_task 0 t tok s w = attempt_task t tok s w"
| "retry_task (Suc n) t tok s w =
     (case attempt_task t tok s w of
        (TaskFailed e, w') \<Rightarrow>
          if e \<in> set (retry_errors t) then retry_task n t tok s w' else (TaskFailed e, w')
      | (TaskSucceeded s', w') \<Rightarrow> (TaskSucceeded s', w')
      | (TaskParked, w') \<Rightarrow> (TaskParked, w'))"

definition run_task :: "task \<Rightarrow> string \<Rightarrow> json \<Rightarrow> world \<Rightarrow> task_result \<times> world" where
  "run_task t = retry_task (retry_max t) t"

text \<open>
  An execution of a chain \<^verbatim>\<open>a.next(b).next(c)\<close>: each state runs on the output of the
  one before it; a failed state ends the execution as failed, in that state.
\<close>

datatype outcome = Succeeded json | Failed string error | Parked string

fun execute :: "task list \<Rightarrow> string \<Rightarrow> json \<Rightarrow> world \<Rightarrow> outcome \<times> world" where
  "execute [] tok s w = (Succeeded s, w)"
| "execute (t # ts) tok s w =
     (case run_task t tok s w of
        (TaskFailed e, w') \<Rightarrow> (Failed (task_id t) e, w')
      | (TaskParked, w') \<Rightarrow> (Parked (task_id t), w')
      | (TaskSucceeded s', w') \<Rightarrow> execute ts tok s' w')"

section \<open>The construct \<^verbatim>\<open>sfnResume\<close>\<close>

text \<open>
  The two properties of \<^verbatim>\<open>props\<close> that reach the tasks. The others (removal policy,
  name suffix, event pattern, role) name and provision resources.
\<close>

record props =
  pathToIdPauseTask :: path
  pathToIdWorkflow :: path

definition tableName :: json where
  "tableName = JStr ''table''"

text \<open>\<^verbatim>\<open>tasks.DynamoAttributeValue.fromString(v)\<close> is the attribute value \<^verbatim>\<open>{ S: v }\<close>.\<close>

definition fromString :: "param \<Rightarrow> param" where
  "fromString v = Obj [(''S'', v)]"

text \<open>
  \<^verbatim>\<open>this.task\<close>, the pause task \<^verbatim>\<open>putDbResumeToken\<close> the caller puts into its own
  workflow.
\<close>

definition putDbResumeToken :: "props \<Rightarrow> task" where
  "putDbResumeToken p =
     \<lparr>task_id = ''putDbResumeToken'',
      resultPath = None,
      service = ''dynamodb'',
      action = ''putItem'',
      integrationPattern = WAIT_FOR_TASK_TOKEN,
      parameters = Obj
        [(''TableName'', Lit tableName),
         (''Item'', Obj
            [(''id'', Obj [(''S'', stringAt (pathToIdPauseTask p))]),
             (''token'', Obj [(''S'', taskToken)])]),
         (''ConditionExpression'', Lit (JStr ''attribute_not_exists(id)''))],
      retry = None\<rparr>"

text \<open>
  \<^verbatim>\<open>tasks.DynamoGetItem\<close>, with the \<^verbatim>\<open>resultPath\<close> and the key the construct gives it.
  The construct does not give \<^verbatim>\<open>consistentRead\<close>, and the task then asks for
  \<^verbatim>\<open>ConsistentRead: false\<close>: the lookup is an eventually consistent read.
\<close>

definition getResumeToken :: "props \<Rightarrow> task" where
  "getResumeToken p =
     \<lparr>task_id = ''getResumeToken'',
      resultPath = Some [''getResumeToken''],
      service = ''dynamodb'',
      action = ''getItem'',
      integrationPattern = REQUEST_RESPONSE,
      parameters = Obj
        [(''Key'', Obj [(''id'', fromString (stringAt (pathToIdWorkflow p)))]),
         (''TableName'', Lit tableName),
         (''ConsistentRead'', Lit (JBool False))],
      retry = None\<rparr>"

definition sendTaskSuccess :: task where
  "sendTaskSuccess =
     \<lparr>task_id = ''sendTaskSuccess'',
      resultPath = Some [''sendTaskSuccess''],
      service = ''sfn'',
      action = ''sendTaskSuccess'',
      integrationPattern = REQUEST_RESPONSE,
      parameters = Obj
        [(''TaskToken'', stringAt [''getResumeToken'', ''Item'', ''token'', ''S'']),
         (''Output'', Obj [(''staus'', Lit (JStr ''resume''))])],
      retry = None\<rparr>"

text \<open>
  \<^verbatim>\<open>tasks.DynamoDeleteItem\<close>; the construct gives it no \<^verbatim>\<open>resultPath\<close>, so the result
  replaces the state (\<^verbatim>\<open>$\<close>).
\<close>

definition deleteResumeToken :: "props \<Rightarrow> task" where
  "deleteResumeToken p =
     \<lparr>task_id = ''deleteResumeToken'',
      resultPath = Some [],
      service = ''dynamodb'',
      action = ''deleteItem'',
      integrationPattern = REQUEST_RESPONSE,
      parameters = Obj
        [(''Key'', Obj [(''id'', fromString (stringAt (pathToIdWorkflow p)))]),
         (''TableName'', Lit tableName)],
      retry = None\<rparr>"

text \<open>
  The definition of the resume state machine \<^verbatim>\<open>sfnMain\<close>:
  \<^verbatim>\<open>getResumeToken.next(sendTaskSuccess).next(deleteResumeToken)\<close>.
\<close>

definition sfnMain :: "props \<Rightarrow> task list" where
  "sfnMain p = [getResumeToken p, sendTaskSuccess, deleteResumeToken p]"

section \<open>The calls the tasks make\<close>

text \<open>
  The resolved parameters of the construct's tasks, the item the pause task stores, and
  the recorded calls of the four tasks; the lemmas \<open>resolve_put\<close>, \<open>resolve_get\<close>,
  \<open>resolve_send\<close> and \<open>resolve_delete\<close> tie them to the task definitions.
\<close>

definition key_params :: "json \<Rightarrow> json" where
  "key_params v = JObj [(''Key'', JObj [(''id'', JObj [(''S'', v)])]), (''TableName'', tableName)]"

definition get_params :: "json \<Rightarrow> json" where
  "get_params v = JObj
     [(''Key'', JObj [(''id'', JObj [(''S'', v)])]),
      (''TableName'', tableName),
      (''ConsistentRead'', JBool False)]"

definition signal_params :: "json \<Rightarrow> json" where
  "signal_params v = JObj [(''TaskToken'', v), (''Output'', JObj [(''staus'', JStr ''resume'')])]"

definition put_params :: "json \<Rightarrow> string \<Rightarrow> json" where
  "put_params v tok = JObj
     [(''TableName'', tableName),
      (''Item'', JObj [(''id'', JObj [(''S'', v)]), (''token'', JObj [(''S'', JStr tok)])]),
      (''ConditionExpression'', JStr ''attribute_not_exists(id)'')]"

definition record_of :: "string \<Rightarrow> string \<Rightarrow> json" where
  "record_of k tok = JObj [(''id'', JObj [(''S'', JStr k)]), (''token'', JObj [(''S'', JStr tok)])]"

definition made :: "string \<Rightarrow> string \<Rightarrow> json \<Rightarrow> error + json \<Rightarrow> call" where
  "made svc act ps r = \<lparr>c_service = svc, c_action = act, c_params = ps, c_result = r\<rparr>"

definition get_call :: "json \<Rightarrow> error + json \<Rightarrow> call" where
  "get_call v r = made ''dynamodb'' ''getItem'' (get_params v) r"

definition signal_call :: "json \<Rightarrow> error + json \<Rightarrow> call" where
  "signal_call v r = made ''sfn'' ''sendTaskSuccess'' (signal_params v) r"

definition delete_call :: "json \<Rightarrow> error + json \<Rightarrow> call" where
  "delete_call v r = made ''dynamodb'' ''deleteItem'' (key_params v) r"

section \<open>Terminal states of a resume run\<close>

text \<open>
  A run of \<^verbatim>\<open>sfnMain\<close> whose lookup found no continuation token ends in the state
  \<^verbatim>\<open>sendTaskSuccess\<close> before any call to the engine: the path
  \<^verbatim>\<open>$.getResumeToken.Item.token.S\<close> of the task's parameters is not in the state, and the
  state machine has no other branch for a missing item. This is the terminal state of a
  resume attempt with no pending continuation.
\<close>

definition SKIPPED :: outcome where
  "SKIPPED = Failed ''sendTaskSuccess'' States_Runtime"

section \<open>A scenario\<close>

text \<open>
  The construct with the paths of its integration test, a workflow state and a completion
  event that carry the job id \<^verbatim>\<open>job-42\<close>, an event whose job id is the empty string,
  and four worlds: nothing stored; the execution with token \<^verbatim>\<open>h1\<close> parked on
  \<^verbatim>\<open>job-42\<close> and its record written and propagated; the same with the record written
  but not yet propagated; and the record stored while the engine no longer waits on
  \<^verbatim>\<open>h1\<close>.
\<close>

definition props_example :: props where
  "props_example = \<lparr>pathToIdPauseTask = [''data'', ''requestId''], pathToIdWorkflow = [''detail'', ''requestId'']\<rparr>"

definition state_job42 :: json where
  "state_job42 = JObj [(''data'', JObj [(''requestId'', JStr ''job-42'')])]"

definition event_job42 :: "(string \<times> json) list" where
  "event_job42 = [(''source'', JStr ''test.source''), (''detail-type'', JStr ''test.event''),
     (''detail'', JObj [(''requestId'', JStr ''job-42'')])]"

definition event_no_id :: "(string \<times> json) list" where
  "event_no_id = [(''source'', JStr ''test.source''), (''detail-type'', JStr ''test.event''),
     (''detail'', JObj [(''requestId'', JStr [])])]"

definition world_empty :: world where
  "world_empty = \<lparr>table = Map.empty, replica = Map.empty, parked = Map.empty,
     resumed = Map.empty, calls = []\<rparr>"

definition world_job42 :: world where
  "world_job42 = \<lparr>table = [Key ''job-42'' \<mapsto> record_of ''job-42'' ''h1''],
     replica = [Key ''job-42'' \<mapsto> record_of ''job-42'' ''h1''],
     parked = [''h1'' \<mapsto> (None, state_job42)], resumed = Map.empty, calls = []\<rparr>"

definition world_written :: world where
  "world_written = \<lparr>table = [Key ''job-42'' \<mapsto> record_of ''job-42'' ''h1''],
     replica = Map.empty,
     parked = [''h1'' \<mapsto> (None, state_job42)], resumed = Map.empty, calls = []\<rparr>"

definition world_stale :: world where
  "world_stale = \<lparr>table = [Key ''job-42'' \<mapsto> record_of ''job-42'' ''h1''],
     replica = [Key ''job-42'' \<mapsto> record_of ''job-42'' ''h1''],
     parked = Map.empty, resumed = Map.empty, calls = []\<rparr>"

section \<open>Runs that overlap\<close>

text \<open>
  The engine runs an execution one state at a time, and between two states of one run
  another run may take its own. A run in flight is its task token, the states it still
  has to run and its state data; a finished run is its outcome.
\<close>

datatype run = Running string "task list" json | Finished outcome

text \<open>One state of a run: the step that \<open>execute\<close> iterates.\<close>

fun exec_step :: "run \<Rightarrow> world \<Rightarrow> run \<times> world" where
  "exec_step (Finished out) w = (Finished out, w)"
| "exec_step (Running tok [] s) w = (Finished (Succeeded s), w)"
| "exec_step (Running tok (t # ts) s) w =
     (case run_task t tok s w of
        (TaskFailed e, w') \<Rightarrow> (Finished (Failed (task_id t) e), w')
      | (TaskParked, w') \<Rightarrow> (Finished (Parked (task_id t)), w')
      | (TaskSucceeded s', w') \<Rightarrow>
          (if ts = [] then Finished (Succeeded s') else Running tok ts s', w'))"

text \<open>
  Two runs over one world under a schedule of actions: the first run takes its next
  state, the second run takes its next state, or the writes made so far propagate to the
  copy the lookups read. A finished run that is scheduled stays as it is.
\<close>

datatype action = First | Second | Propagate

fun interleave :: "action list \<Rightarrow> run \<times> run \<times> world \<Rightarrow> run \<times> run \<times> world" where
  "interleave [] c = c"
| "interleave (First # as) (r1, r2, w) =
     (case exec_step r1 w of (r1', w') \<Rightarrow> interleave as (r1', r2, w'))"
| "interleave (Second # as) (r1, r2, w) =
     (case exec_step r2 w of (r2', w') \<Rightarrow> interleave as (r1, r2', w'))"
| "interleave (Propagate # as) (r1, r2, w) = interleave as (r1, r2, propagate w)"

text \<open>The signals among a list of calls, and those the engine accepted.\<close>

definition signals :: "call list \<Rightarrow> call list" where
  "signals cs = filter (\<lambda>c. c_service c = ''sfn'' \<and> c_action c = ''sendTaskSuccess'') cs"

definition accepted :: "call list \<Rightarrow> call list" where
  "accepted cs = filter (\<lambda>c. \<exists>r. c_result c = Inr r) (signals cs)"

text \<open>
  The schedule in which both runs look the record up before either signals, and both
  signal before either deletes.
\<close>

definition overlap :: "action list" where
  "overlap = [First, Second, First, Second, First, Second]"

text \<open>
  The stages of a resume run for an event whose job id has the record \<open>item\<close>: before
  the lookup; before the signal, with the record found or not; before the delete; and
  the three ways it ends. \<open>at_stage\<close> is the run at a stage, \<open>remaining\<close> the number of
  steps it still can take.
\<close>

datatype stage = Lookup | Signal_found | Signal_none | Delete | Done | Skipped | Rejected

definition at_stage :: "props \<Rightarrow> string \<Rightarrow> (string \<times> json) list \<Rightarrow> json \<Rightarrow> stage \<Rightarrow> run" where
  "at_stage p tok ev item st =
     (case st of
        Lookup \<Rightarrow> Running tok (sfnMain p) (JObj ev)
      | Signal_found \<Rightarrow>
          Running tok [sendTaskSuccess, deleteResumeToken p]
            (JObj (AList.update ''getResumeToken'' (JObj [(''Item'', item)]) ev))
      | Signal_none \<Rightarrow>
          Running tok [sendTaskSuccess, deleteResumeToken p]
            (JObj (AList.update ''getResumeToken'' (JObj []) ev))
      | Delete \<Rightarrow>
          Running tok [deleteResumeToken p]
            (JObj (AList.update ''sendTaskSuccess'' (JObj [])
               (AList.update ''getResumeToken'' (JObj [(''Item'', item)]) ev)))
      | Done \<Rightarrow> Finished (Succeeded (JObj []))
      | Skipped \<Rightarrow> Finished SKIPPED
      | Rejected \<Rightarrow> Finished (Failed ''sendTaskSuccess'' Sfn_TaskTimedOut))"

fun remaining :: "stage \<Rightarrow> nat" where
  "remaining Lookup = 3"
| "remaining Signal_found = 2"
| "remaining Signal_none = 1"
| "remaining Delete = 1"
| "remaining Done = 0"
| "remaining Skipped = 0"
| "remaining Rejected = 0"

text \<open>
  A run has won when the engine accepted its signal, has signalled when it called the
  engine, and is blind when its lookup found no record.
\<close>

definition won :: "stage \<Rightarrow> bool" where
  "won st \<longleftrightarrow> st = Delete \<or> st = Done"

definition signalled :: "stage \<Rightarrow> bool" where
  "signalled st \<longleftrightarrow> st = Delete \<or> st = Done \<or> st = Rejected"

definition blind :: "stage \<Rightarrow> bool" where
  "blind st \<longleftrightarrow> st = Signal_none \<or> st = Skipped"

text \<open>
  What holds of the world and of the calls made so far, \<open>new\<close>, whatever stages two runs
  for the job id \<open>k\<close> are at: the record is in the table until a run is done; the copy
  holds the record or what the table holds; the engine waits on the token until a run
  has won; at most one run wins; a blind run saw the other run's delete; a rejected run
  lost to the other; and the calls count the signals.
\<close>

definition balanced :: "key \<Rightarrow> json \<Rightarrow> string \<Rightarrow> world \<Rightarrow> call list \<Rightarrow> stage \<Rightarrow> stage \<Rightarrow> bool" where
  "balanced k item t w new s1 s2 \<longleftrightarrow>
     table w k = (if s1 = Done \<or> s2 = Done then None else Some item)
   \<and> (replica w k = Some item \<or> replica w k = table w k)
   \<and> (parked w t = None \<longleftrightarrow> won s1 \<or> won s2)
   \<and> \<not> (won s1 \<and> won s2)
   \<and> (blind s1 \<longrightarrow> s2 = Done) \<and> (blind s2 \<longrightarrow> s1 = Done)
   \<and> (s1 = Rejected \<longrightarrow> won s2) \<and> (s2 = Rejected \<longrightarrow> won s1)
   \<and> (blind s1 \<or> blind s2 \<longrightarrow> get_call (JStr (key_string k)) (Inr (JObj [])) \<in> set new)
   \<and> length (accepted new) = (if won s1 \<or> won s2 then 1 else 0)
   \<and> length (signals new) =
       (if signalled s1 then 1 else 0) + (if signalled s2 then 1 else (0::nat))"

section \<open>Keys\<close>

lemma valid_key_string [simp]: "valid_key (key_string k)"
  using key_string [of k] by simp

lemma Key_string [simp]: "Key (key_string k) = k"
  by (rule key_string_inverse)

lemma key_string_Key [simp]: "valid_key s \<Longrightarrow> key_string (Key s) = s"
  by (simp add: Key_inverse)

lemma valid_job42 [simp]: "valid_key ''job-42''"
  by (simp add: valid_key_def)

lemma empty_not_valid [simp]: "\<not> valid_key []"
  by (simp add: valid_key_def)

section \<open>What each task does\<close>

lemma run_task_no_retry: "retry t = None \<Longrightarrow> run_task t = attempt_task t"
  by (rule ext)+ (simp add: run_task_def retry_max_def)

lemma resolve_put:
  "resolve tok s (parameters (putDbResumeToken p)) =
     map_option (\<lambda>v. put_params v tok) (get_path (pathToIdPauseTask p) s)"
  by (simp add: putDbResumeToken_def put_params_def split: option.splits)

lemma resolve_get:
  "resolve tok s (parameters (getResumeToken p)) =
     map_option get_params (get_path (pathToIdWorkflow p) s)"
  by (simp add: getResumeToken_def get_params_def fromString_def split: option.splits)

lemma resolve_delete:
  "resolve tok s (parameters (deleteResumeToken p)) =
     map_option key_params (get_path (pathToIdWorkflow p) s)"
  by (simp add: deleteResumeToken_def key_params_def fromString_def split: option.splits)

lemma resolve_send:
  "resolve tok s (parameters sendTaskSuccess) =
     map_option signal_params (get_path [''getResumeToken'', ''Item'', ''token'', ''S''] s)"
  by (simp add: sendTaskSuccess_def signal_params_def split: option.splits)

text \<open>The job id a call is made with is usable when it is a string DynamoDB takes as a key.\<close>

lemma putItem_params:
  "putItem (put_params v tok) w =
     (case v of
        JStr s \<Rightarrow>
          if \<not> valid_key s then (Inl DynamoDB_ValidationException, w)
          else if table w (Key s) \<noteq> None
          then (Inl DynamoDB_ConditionalCheckFailedException, w)
          else (Inr (JObj []), w\<lparr>table := (table w)(Key s \<mapsto> record_of s tok)\<rparr>)
      | _ \<Rightarrow> (Inl DynamoDB_ValidationException, w))"
  by (simp add: putItem_def put_params_def string_at_def record_of_def split: json.splits)

lemma getItem_params:
  "getItem (get_params v) w =
     (case v of
        JStr s \<Rightarrow>
          if \<not> valid_key s then (Inl DynamoDB_ValidationException, w)
          else (Inr (item_answer (replica w (Key s))), w)
      | _ \<Rightarrow> (Inl DynamoDB_ValidationException, w))"
  by (simp add: getItem_def get_params_def string_at_def split: json.splits)

lemma deleteItem_params:
  "deleteItem (key_params v) w =
     (case v of
        JStr s \<Rightarrow>
          if \<not> valid_key s then (Inl DynamoDB_ValidationException, w)
          else (Inr (JObj []), w\<lparr>table := (table w)(Key s := None)\<rparr>)
      | _ \<Rightarrow> (Inl DynamoDB_ValidationException, w))"
  by (simp add: deleteItem_def key_params_def string_at_def split: json.splits)

lemma sendTaskSuccess_params:
  "sendTaskSuccess_api (signal_params v) w =
     (case v of
        JStr t \<Rightarrow>
          (case parked w t of
             None \<Rightarrow> (Inl Sfn_TaskTimedOut, w)
           | Some (rp, input) \<Rightarrow>
               (Inr (JObj []),
                w\<lparr>parked := (parked w)(t := None),
                  resumed := (resumed w)(t \<mapsto>
                    apply_result_path rp input (JObj [(''staus'', JStr ''resume'')]))\<rparr>))
      | _ \<Rightarrow> (Inl Sfn_ValidationException, w))"
  by (simp add: sendTaskSuccess_api_def signal_params_def string_at_def split: json.splits)

lemma attempt_task_eq:
  "attempt_task t tok s w =
     (case resolve tok s (parameters t) of
        None \<Rightarrow> (TaskFailed States_Runtime, w)
      | Some ps \<Rightarrow>
          (case call_aws (service t) (action t) ps w of
             (Inl e, w') \<Rightarrow> (TaskFailed e, w')
           | (Inr r, w') \<Rightarrow>
               (case integrationPattern t of
                  REQUEST_RESPONSE \<Rightarrow>
                    (case apply_result_path (resultPath t) s r of
                       None \<Rightarrow> (TaskFailed States_ResultPathMatchFailure, w')
                     | Some s' \<Rightarrow> (TaskSucceeded s', w'))
                | WAIT_FOR_TASK_TOKEN \<Rightarrow>
                    (TaskParked, w'\<lparr>parked := (parked w')(tok \<mapsto> (resultPath t, s))\<rparr>))))"
  by (simp add: attempt_task_def)

lemma call_putItem:
  "call_aws ''dynamodb'' ''putItem'' ps w =
     (fst (putItem ps w),
      (snd (putItem ps w))\<lparr>calls := calls (snd (putItem ps w)) @
         [made ''dynamodb'' ''putItem'' ps (fst (putItem ps w))]\<rparr>)"
  by (simp add: call_aws_def made_def split: prod.splits)

lemma call_getItem:
  "call_aws ''dynamodb'' ''getItem'' ps w =
     (fst (getItem ps w),
      (snd (getItem ps w))\<lparr>calls := calls (snd (getItem ps w)) @
         [made ''dynamodb'' ''getItem'' ps (fst (getItem ps w))]\<rparr>)"
  by (simp add: call_aws_def made_def split: prod.splits)

lemma call_deleteItem:
  "call_aws ''dynamodb'' ''deleteItem'' ps w =
     (fst (deleteItem ps w),
      (snd (deleteItem ps w))\<lparr>calls := calls (snd (deleteItem ps w)) @
         [made ''dynamodb'' ''deleteItem'' ps (fst (deleteItem ps w))]\<rparr>)"
  by (simp add: call_aws_def made_def split: prod.splits)

lemma call_sendTaskSuccess:
  "call_aws ''sfn'' ''sendTaskSuccess'' ps w =
     (fst (sendTaskSuccess_api ps w),
      (snd (sendTaskSuccess_api ps w))\<lparr>calls := calls (snd (sendTaskSuccess_api ps w)) @
         [made ''sfn'' ''sendTaskSuccess'' ps (fst (sendTaskSuccess_api ps w))]\<rparr>)"
  by (simp add: call_aws_def made_def split: prod.splits)

lemma run_putDbResumeToken:
  "run_task (putDbResumeToken p) tok s w =
     (case get_path (pathToIdPauseTask p) s of
        None \<Rightarrow> (TaskFailed States_Runtime, w)
      | Some v \<Rightarrow>
          (case v of
             JStr k \<Rightarrow>
               if \<not> valid_key k
               then (TaskFailed DynamoDB_ValidationException,
                     w\<lparr>calls := calls w @ [made ''dynamodb'' ''putItem'' (put_params v tok)
                        (Inl DynamoDB_ValidationException)]\<rparr>)
               else if table w (Key k) \<noteq> None
               then (TaskFailed DynamoDB_ConditionalCheckFailedException,
                     w\<lparr>calls := calls w @ [made ''dynamodb'' ''putItem'' (put_params v tok)
                        (Inl DynamoDB_ConditionalCheckFailedException)]\<rparr>)
               else (TaskParked,
                     w\<lparr>table := (table w)(Key k \<mapsto> record_of k tok),
                       parked := (parked w)(tok \<mapsto> (None, s)),
                       calls := calls w @ [made ''dynamodb'' ''putItem'' (put_params v tok)
                        (Inr (JObj []))]\<rparr>)
           | _ \<Rightarrow> (TaskFailed DynamoDB_ValidationException,
                   w\<lparr>calls := calls w @ [made ''dynamodb'' ''putItem'' (put_params v tok)
                      (Inl DynamoDB_ValidationException)]\<rparr>)))"
proof -
  have r: "retry (putDbResumeToken p) = None" "service (putDbResumeToken p) = ''dynamodb''"
    "action (putDbResumeToken p) = ''putItem''" "resultPath (putDbResumeToken p) = None"
    "integrationPattern (putDbResumeToken p) = WAIT_FOR_TASK_TOKEN"
    by (simp_all add: putDbResumeToken_def)
  show ?thesis
    by (simp add: run_task_no_retry r attempt_task_eq resolve_put call_putItem putItem_params
        split: option.splits json.splits)
qed

lemma run_getResumeToken:
  "run_task (getResumeToken p) tok s w =
     (case get_path (pathToIdWorkflow p) s of
        None \<Rightarrow> (TaskFailed States_Runtime, w)
      | Some v \<Rightarrow>
          (case v of
             JStr k \<Rightarrow>
               if \<not> valid_key k
               then (TaskFailed DynamoDB_ValidationException,
                     w\<lparr>calls := calls w @ [get_call v (Inl DynamoDB_ValidationException)]\<rparr>)
               else
               (case set_path [''getResumeToken''] (item_answer (replica w (Key k))) s of
                  None \<Rightarrow> (TaskFailed States_ResultPathMatchFailure,
                     w\<lparr>calls := calls w @
                        [get_call v (Inr (item_answer (replica w (Key k))))]\<rparr>)
                | Some s' \<Rightarrow> (TaskSucceeded s',
                     w\<lparr>calls := calls w @
                        [get_call v (Inr (item_answer (replica w (Key k))))]\<rparr>))
           | _ \<Rightarrow> (TaskFailed DynamoDB_ValidationException,
                   w\<lparr>calls := calls w @ [get_call v (Inl DynamoDB_ValidationException)]\<rparr>)))"
proof -
  have r: "retry (getResumeToken p) = None" "service (getResumeToken p) = ''dynamodb''"
    "action (getResumeToken p) = ''getItem''"
    "resultPath (getResumeToken p) = Some [''getResumeToken'']"
    "integrationPattern (getResumeToken p) = REQUEST_RESPONSE"
    by (simp_all add: getResumeToken_def)
  show ?thesis
    by (simp add: run_task_no_retry r attempt_task_eq resolve_get call_getItem getItem_params
        get_call_def del: set_path.simps split: option.splits json.splits)
qed

lemma run_sendTaskSuccess:
  "run_task sendTaskSuccess tok s w =
     (case get_path [''getResumeToken'', ''Item'', ''token'', ''S''] s of
        None \<Rightarrow> (TaskFailed States_Runtime, w)
      | Some v \<Rightarrow>
          (case v of
             JStr t \<Rightarrow>
               (case parked w t of
                  None \<Rightarrow> (TaskFailed Sfn_TaskTimedOut,
                     w\<lparr>calls := calls w @ [signal_call v (Inl Sfn_TaskTimedOut)]\<rparr>)
                | Some pe \<Rightarrow>
                    (case set_path [''sendTaskSuccess''] (JObj []) s of
                       None \<Rightarrow> TaskFailed States_ResultPathMatchFailure
                     | Some s' \<Rightarrow> TaskSucceeded s',
                     w\<lparr>parked := (parked w)(t := None),
                       resumed := (resumed w)(t \<mapsto>
                         apply_result_path (fst pe) (snd pe) (JObj [(''staus'', JStr ''resume'')])),
                       calls := calls w @ [signal_call v (Inr (JObj []))]\<rparr>))
           | _ \<Rightarrow> (TaskFailed Sfn_ValidationException,
                   w\<lparr>calls := calls w @ [signal_call v (Inl Sfn_ValidationException)]\<rparr>)))"
proof -
  have r: "retry sendTaskSuccess = None" "service sendTaskSuccess = ''sfn''"
    "action sendTaskSuccess = ''sendTaskSuccess''"
    "resultPath sendTaskSuccess = Some [''sendTaskSuccess'']"
    "integrationPattern sendTaskSuccess = REQUEST_RESPONSE"
    by (simp_all add: sendTaskSuccess_def)
  show ?thesis
    by (simp add: run_task_no_retry r attempt_task_eq resolve_send call_sendTaskSuccess
        sendTaskSuccess_params signal_call_def del: set_path.simps get_path.simps
        split: option.splits json.splits prod.splits)
qed

lemma run_deleteResumeToken:
  "run_task (deleteResumeToken p) tok s w =
     (case get_path (pathToIdWorkflow p) s of
        None \<Rightarrow> (TaskFailed States_Runtime, w)
      | Some v \<Rightarrow>
          (case v of
             JStr k \<Rightarrow>
               if \<not> valid_key k
               then (TaskFailed DynamoDB_ValidationException,
                     w\<lparr>calls := calls w @ [delete_call v (Inl DynamoDB_ValidationException)]\<rparr>)
               else (TaskSucceeded (JObj []),
                     w\<lparr>table := (table w)(Key k := None),
                       calls := calls w @ [delete_call v (Inr (JObj []))]\<rparr>)
           | _ \<Rightarrow> (TaskFailed DynamoDB_ValidationException,
                   w\<lparr>calls := calls w @ [delete_call v (Inl DynamoDB_ValidationException)]\<rparr>)))"
proof -
  have r: "retry (deleteResumeToken p) = None" "service (deleteResumeToken p) = ''dynamodb''"
    "action (deleteResumeToken p) = ''deleteItem''"
    "resultPath (deleteResumeToken p) = Some []"
    "integrationPattern (deleteResumeToken p) = REQUEST_RESPONSE"
    by (simp_all add: deleteResumeToken_def)
  show ?thesis
    by (simp add: run_task_no_retry r attempt_task_eq resolve_delete call_deleteItem
        deleteItem_params delete_call_def split: option.splits json.splits)
qed

lemma call_fields [simp]:
  "c_service (made svc act ps r) = svc" "c_action (made svc act ps r) = act"
  "c_params (made svc act ps r) = ps" "c_result (made svc act ps r) = r"
  by (simp_all add: made_def)

lemma made_eq_iff [simp]:
  "made svc act ps r = made svc' act' ps' r' \<longleftrightarrow> svc = svc' \<and> act = act' \<and> ps = ps' \<and> r = r'"
  by (auto simp: made_def)

lemma get_path_string_at: "string_at p s = Some k \<Longrightarrow> get_path p s = Some (JStr k)"
  by (auto simp: string_at_def split: option.splits json.splits)

lemma get_path_update_other:
  "f \<noteq> g \<Longrightarrow> get_path (f # fs) (JObj (AList.update g v kvs)) = get_path (f # fs) (JObj kvs)"
  by (simp add: update_conv')

lemma get_path_field_known:
  assumes "get_path (f # fs) (JObj kvs) = Some v"
  shows "f \<in> fst ` set kvs"
proof -
  from assms obtain c where "map_of kvs f = Some c"
    by (auto split: option.splits)
  then show ?thesis
    by (metis map_of_SomeD fst_conv image_eqI)
qed

section \<open>The runs of the resume state machine\<close>

lemma execute_sfnMain:
  "execute (sfnMain p) tok s w =
     (case run_task (getResumeToken p) tok s w of
        (TaskFailed e, w1) \<Rightarrow> (Failed ''getResumeToken'' e, w1)
      | (TaskParked, w1) \<Rightarrow> (Parked ''getResumeToken'', w1)
      | (TaskSucceeded s1, w1) \<Rightarrow>
          (case run_task sendTaskSuccess tok s1 w1 of
             (TaskFailed e, w2) \<Rightarrow> (Failed ''sendTaskSuccess'' e, w2)
           | (TaskParked, w2) \<Rightarrow> (Parked ''sendTaskSuccess'', w2)
           | (TaskSucceeded s2, w2) \<Rightarrow>
               (case run_task (deleteResumeToken p) tok s2 w2 of
                  (TaskFailed e, w3) \<Rightarrow> (Failed ''deleteResumeToken'' e, w3)
                | (TaskParked, w3) \<Rightarrow> (Parked ''deleteResumeToken'', w3)
                | (TaskSucceeded s3, w3) \<Rightarrow> (Succeeded s3, w3))))"
proof -
  have ids: "task_id (getResumeToken p) = ''getResumeToken''"
    "task_id sendTaskSuccess = ''sendTaskSuccess''"
    "task_id (deleteResumeToken p) = ''deleteResumeToken''"
    by (simp_all add: getResumeToken_def sendTaskSuccess_def deleteResumeToken_def)
  show ?thesis
    by (simp add: sfnMain_def ids split: prod.splits task_result.splits)
qed

text \<open>
  Every run of \<^verbatim>\<open>sfnMain\<close> ends in one of nine ways. In the last three the signal was
  accepted and the run is in its delete step, which reads the job id in the state the two
  result paths have written to.
\<close>

lemma sfnMain_shapes:
  assumes "execute (sfnMain p) tok s w = (out, w')"
  obtains
    (no_id) "out = Failed ''getResumeToken'' States_Runtime" "w' = w"
  | (bad_id) v where
      "out = Failed ''getResumeToken'' DynamoDB_ValidationException"
      "w' = w\<lparr>calls := calls w @ [get_call v (Inl DynamoDB_ValidationException)]\<rparr>"
  | (bad_state) k where
      "out = Failed ''getResumeToken'' States_ResultPathMatchFailure"
      "w' = w\<lparr>calls := calls w @
              [get_call (JStr (key_string k)) (Inr (item_answer (replica w k)))]\<rparr>"
  | (no_token) k where
      "string_at (pathToIdWorkflow p) s = Some (key_string k)"
      "get_path [''Item'', ''token'', ''S''] (item_answer (replica w k)) = None"
      "out = Failed ''sendTaskSuccess'' States_Runtime"
      "w' = w\<lparr>calls := calls w @
              [get_call (JStr (key_string k)) (Inr (item_answer (replica w k)))]\<rparr>"
  | (bad_token) k v where
      "out = Failed ''sendTaskSuccess'' Sfn_ValidationException"
      "w' = w\<lparr>calls := calls w @
              [get_call (JStr (key_string k)) (Inr (item_answer (replica w k))),
               signal_call v (Inl Sfn_ValidationException)]\<rparr>"
  | (rejected) k t where
      "string_at (pathToIdWorkflow p) s = Some (key_string k)"
      "string_at [''Item'', ''token'', ''S''] (item_answer (replica w k)) = Some t"
      "parked w t = None"
      "out = Failed ''sendTaskSuccess'' Sfn_TaskTimedOut"
      "w' = w\<lparr>calls := calls w @
              [get_call (JStr (key_string k)) (Inr (item_answer (replica w k))),
               signal_call (JStr t) (Inl Sfn_TaskTimedOut)]\<rparr>"
  | (accepted_no_id) k t pe where
      "string_at (pathToIdWorkflow p) s = Some (key_string k)"
      "string_at [''Item'', ''token'', ''S''] (item_answer (replica w k)) = Some t"
      "parked w t = Some pe"
      "out = Failed ''deleteResumeToken'' States_Runtime"
      "w' = w\<lparr>parked := (parked w)(t := None),
              resumed := (resumed w)(t \<mapsto>
                apply_result_path (fst pe) (snd pe) (JObj [(''staus'', JStr ''resume'')])),
              calls := calls w @
                [get_call (JStr (key_string k)) (Inr (item_answer (replica w k))),
                 signal_call (JStr t) (Inr (JObj []))]\<rparr>"
  | (accepted_bad_id) k t pe v where
      "string_at (pathToIdWorkflow p) s = Some (key_string k)"
      "string_at [''Item'', ''token'', ''S''] (item_answer (replica w k)) = Some t"
      "parked w t = Some pe"
      "out = Failed ''deleteResumeToken'' DynamoDB_ValidationException"
      "w' = w\<lparr>parked := (parked w)(t := None),
              resumed := (resumed w)(t \<mapsto>
                apply_result_path (fst pe) (snd pe) (JObj [(''staus'', JStr ''resume'')])),
              calls := calls w @
                [get_call (JStr (key_string k)) (Inr (item_answer (replica w k))),
                 signal_call (JStr t) (Inr (JObj [])),
                 delete_call v (Inl DynamoDB_ValidationException)]\<rparr>"
  | (finished) k t pe k' ev where
      "s = JObj ev"
      "string_at (pathToIdWorkflow p) s = Some (key_string k)"
      "string_at [''Item'', ''token'', ''S''] (item_answer (replica w k)) = Some t"
      "parked w t = Some pe"
      "string_at (pathToIdWorkflow p)
         (JObj (AList.update ''sendTaskSuccess'' (JObj [])
            (AList.update ''getResumeToken'' (item_answer (replica w k)) ev)))
         = Some (key_string k')"
      "out = Succeeded (JObj [])"
      "w' = w\<lparr>table := (table w)(k' := None),
              parked := (parked w)(t := None),
              resumed := (resumed w)(t \<mapsto>
                apply_result_path (fst pe) (snd pe) (JObj [(''staus'', JStr ''resume'')])),
              calls := calls w @
                [get_call (JStr (key_string k)) (Inr (item_answer (replica w k))),
                 signal_call (JStr t) (Inr (JObj [])),
                 delete_call (JStr (key_string k')) (Inr (JObj []))]\<rparr>"
proof -
  let ?pw = "pathToIdWorkflow p"
  let ?tp = "[''getResumeToken'', ''Item'', ''token'', ''S'']"
  note run = execute_sfnMain run_getResumeToken run_sendTaskSuccess run_deleteResumeToken
  show thesis
  proof (cases "get_path ?pw s")
    case None
    with assms have "out = Failed ''getResumeToken'' States_Runtime" "w' = w"
      by (auto simp: run)
    then show thesis by (rule no_id)
  next
    case v: (Some v)
    show thesis
    proof (cases "\<exists>k. v = JStr (key_string k)")
      case False
      then have "case v of JStr x \<Rightarrow> \<not> valid_key x | _ \<Rightarrow> True"
        by (auto split: json.splits) (metis key_string_Key)
      with assms v have "out = Failed ''getResumeToken'' DynamoDB_ValidationException"
        "w' = w\<lparr>calls := calls w @ [get_call v (Inl DynamoDB_ValidationException)]\<rparr>"
        by (auto simp: run split: json.splits)
      then show thesis by (rule bad_id)
    next
      case True
      then obtain k where k: "v = JStr (key_string k)" by blast
      let ?r = "item_answer (replica w k)"
      let ?w1 = "w\<lparr>calls := calls w @ [get_call (JStr (key_string k)) (Inr ?r)]\<rparr>"
      have sk: "string_at ?pw s = Some (key_string k)"
        using v k by (simp add: string_at_def)
      show thesis
      proof (cases "set_path [''getResumeToken''] ?r s")
        case None
        with assms v k have "out = Failed ''getResumeToken'' States_ResultPathMatchFailure"
          "w' = ?w1"
          by (auto simp: run simp del: set_path.simps)
        then show thesis by (rule bad_state)
      next
        case s1: (Some s1)
        have g1: "run_task (getResumeToken p) tok s w = (TaskSucceeded s1, ?w1)"
          using v k s1 by (simp add: run_getResumeToken del: set_path.simps)
        obtain ev where ev: "s = JObj ev"
          using s1 by (cases s) auto
        have fs: "s1 = JObj (AList.update ''getResumeToken'' ?r ev)"
          using s1 ev by simp
        have tp: "get_path ?tp s1 = get_path [''Item'', ''token'', ''S''] ?r"
          unfolding fs by (simp add: update_conv')
        have ex: "execute (sfnMain p) tok s w =
          (case run_task sendTaskSuccess tok s1 ?w1 of
             (TaskFailed e, w2) \<Rightarrow> (Failed ''sendTaskSuccess'' e, w2)
           | (TaskParked, w2) \<Rightarrow> (Parked ''sendTaskSuccess'', w2)
           | (TaskSucceeded s2, w2) \<Rightarrow>
               (case run_task (deleteResumeToken p) tok s2 w2 of
                  (TaskFailed e, w3) \<Rightarrow> (Failed ''deleteResumeToken'' e, w3)
                | (TaskParked, w3) \<Rightarrow> (Parked ''deleteResumeToken'', w3)
                | (TaskSucceeded s3, w3) \<Rightarrow> (Succeeded s3, w3)))"
          by (simp add: execute_sfnMain g1)
        show thesis
        proof (cases "get_path [''Item'', ''token'', ''S''] ?r")
          case None
          with assms tp have "out = Failed ''sendTaskSuccess'' States_Runtime" "w' = ?w1"
            by (auto simp: ex run_sendTaskSuccess simp del: get_path.simps)
          then show thesis using sk None by (auto intro: no_token)
        next
          case tv: (Some tv)
          show thesis
          proof (cases "\<exists>t. tv = JStr t")
            case False
            with assms tp tv have "out = Failed ''sendTaskSuccess'' Sfn_ValidationException"
              "w' = w\<lparr>calls := calls w @ [get_call (JStr (key_string k)) (Inr ?r),
                 signal_call tv (Inl Sfn_ValidationException)]\<rparr>"
              by (auto simp: ex run_sendTaskSuccess simp del: get_path.simps
                  split: json.splits)
            then show thesis by (rule bad_token)
          next
            case True
            then obtain t where t: "tv = JStr t" by blast
            have st: "string_at [''Item'', ''token'', ''S''] ?r = Some t"
              using tv t by (simp add: string_at_def del: get_path.simps)
            show thesis
            proof (cases "parked w t")
              case None
              with assms tp tv t have "out = Failed ''sendTaskSuccess'' Sfn_TaskTimedOut"
                "w' = w\<lparr>calls := calls w @ [get_call (JStr (key_string k)) (Inr ?r),
                   signal_call (JStr t) (Inl Sfn_TaskTimedOut)]\<rparr>"
                by (auto simp: ex run_sendTaskSuccess simp del: get_path.simps)
              then show thesis using sk st None by (auto intro: rejected)
            next
              case pe: (Some pe)
              let ?s2 = "JObj (AList.update ''sendTaskSuccess'' (JObj [])
                (AList.update ''getResumeToken'' ?r ev))"
              let ?w2 = "w\<lparr>parked := (parked w)(t := None),
                resumed := (resumed w)(t \<mapsto>
                  apply_result_path (fst pe) (snd pe) (JObj [(''staus'', JStr ''resume'')])),
                calls := calls w @ [get_call (JStr (key_string k)) (Inr ?r),
                  signal_call (JStr t) (Inr (JObj []))]\<rparr>"
              have g2: "run_task sendTaskSuccess tok s1 ?w1 = (TaskSucceeded ?s2, ?w2)"
                using tp tv t pe fs
                by (simp add: run_sendTaskSuccess del: get_path.simps)
              have ex2: "execute (sfnMain p) tok s w =
                (case run_task (deleteResumeToken p) tok ?s2 ?w2 of
                   (TaskFailed e, w3) \<Rightarrow> (Failed ''deleteResumeToken'' e, w3)
                 | (TaskParked, w3) \<Rightarrow> (Parked ''deleteResumeToken'', w3)
                 | (TaskSucceeded s3, w3) \<Rightarrow> (Succeeded s3, w3))"
                by (simp add: ex g2)
              show thesis
              proof (cases "get_path ?pw ?s2")
                case None
                with assms have "out = Failed ''deleteResumeToken'' States_Runtime" "w' = ?w2"
                  by (auto simp: ex2 run_deleteResumeToken simp del: get_path.simps)
                then show thesis using sk st pe by (auto intro: accepted_no_id)
              next
                case dv: (Some dv)
                show thesis
                proof (cases "\<exists>k'. dv = JStr (key_string k')")
                  case False
                  then have "case dv of JStr x \<Rightarrow> \<not> valid_key x | _ \<Rightarrow> True"
                    by (auto split: json.splits) (metis key_string_Key)
                  with assms dv have
                    "out = Failed ''deleteResumeToken'' DynamoDB_ValidationException"
                    "w' = ?w2\<lparr>calls := calls ?w2 @
                       [delete_call dv (Inl DynamoDB_ValidationException)]\<rparr>"
                    by (auto simp: ex2 run_deleteResumeToken
                        simp del: get_path.simps split: json.splits)
                  then show thesis using sk st pe by (auto intro: accepted_bad_id)
                next
                  case True
                  then obtain k' where k': "dv = JStr (key_string k')" by blast
                  have sk': "string_at ?pw ?s2 = Some (key_string k')"
                    using dv k' by (simp add: string_at_def del: get_path.simps)
                  from assms dv k' have "out = Succeeded (JObj [])"
                    "w' = ?w2\<lparr>table := (table w)(k' := None), calls := calls ?w2 @
                       [delete_call (JStr (key_string k')) (Inr (JObj []))]\<rparr>"
                    by (auto simp: ex2 run_deleteResumeToken simp del: get_path.simps)
                  then show thesis
                    using ev sk st pe sk' by (intro finished [of ev k t pe k']) simp_all
                qed
              qed
            qed
          qed
        qed
      qed
    qed
  qed
qed

section \<open>The scenario, evaluated\<close>

lemma job42_key [simp]: "key_string (Key ''job-42'') = ''job-42''"
  by simp

lemma state_job42_id:
  "string_at (pathToIdPauseTask props_example) state_job42 = Some (key_string (Key ''job-42''))"
  by (simp add: props_example_def state_job42_def string_at_def)

lemma event_job42_id:
  "string_at (pathToIdWorkflow props_example) (JObj event_job42) = Some (key_string (Key ''job-42''))"
  by (simp add: props_example_def event_job42_def string_at_def)

lemma event_no_id_id:
  "string_at (pathToIdWorkflow props_example) (JObj event_no_id) = Some []"
  by (simp add: props_example_def event_no_id_def string_at_def)

lemma event_job42_fresh:
  "''getResumeToken'' \<notin> fst ` set event_job42" "''sendTaskSuccess'' \<notin> fst ` set event_job42"
  by (simp_all add: event_job42_def)

lemma pause_job42:
  "run_task (putDbResumeToken props_example) ''h1'' state_job42 world_empty =
     (TaskParked,
      world_written\<lparr>calls := [made ''dynamodb'' ''putItem'' (put_params (JStr ''job-42'') ''h1'')
         (Inr (JObj []))]\<rparr>)"
  using get_path_string_at [OF state_job42_id]
  by (simp add: run_putDbResumeToken world_empty_def world_written_def)

lemma propagate_written: "propagate (world_written\<lparr>calls := cs\<rparr>) = world_job42\<lparr>calls := cs\<rparr>"
  by (simp add: propagate_def world_written_def world_job42_def)

lemma lookup_written:
  "run_task (getResumeToken props_example) tok (JObj event_job42) (world_written\<lparr>calls := cs\<rparr>) =
     (TaskSucceeded (JObj (event_job42 @ [(''getResumeToken'', JObj [])])),
      world_written\<lparr>calls := cs @ [get_call (JStr ''job-42'') (Inr (JObj []))]\<rparr>)"
  using get_path_string_at [OF event_job42_id]
  by (simp add: run_getResumeToken world_written_def) (simp add: event_job42_def)

lemma lookup_job42:
  "run_task (getResumeToken props_example) tok (JObj event_job42) world_job42 =
     (TaskSucceeded (JObj (event_job42 @
        [(''getResumeToken'', JObj [(''Item'', record_of ''job-42'' ''h1'')])])),
      world_job42\<lparr>calls :=
        [get_call (JStr ''job-42'') (Inr (JObj [(''Item'', record_of ''job-42'' ''h1'')]))]\<rparr>)"
  using get_path_string_at [OF event_job42_id]
  by (simp add: run_getResumeToken world_job42_def) (simp add: event_job42_def)

lemma signal_job42:
  "run_task sendTaskSuccess tok
     (JObj (event_job42 @ [(''getResumeToken'', JObj [(''Item'', record_of ''job-42'' ''h1'')])]))
     (world_job42\<lparr>calls :=
        [get_call (JStr ''job-42'') (Inr (JObj [(''Item'', record_of ''job-42'' ''h1'')]))]\<rparr>) =
     (TaskSucceeded (JObj (event_job42 @
        [(''getResumeToken'', JObj [(''Item'', record_of ''job-42'' ''h1'')]),
         (''sendTaskSuccess'', JObj [])])),
      world_job42\<lparr>parked := Map.empty,
        resumed := [''h1'' \<mapsto> Some state_job42],
        calls :=
        [get_call (JStr ''job-42'') (Inr (JObj [(''Item'', record_of ''job-42'' ''h1'')])),
         signal_call (JStr ''h1'') (Inr (JObj []))]\<rparr>)"
  by (simp add: run_sendTaskSuccess world_job42_def event_job42_def record_of_def)

lemma execute_job42:
  "execute (sfnMain props_example) tok (JObj event_job42) world_job42 =
     (Succeeded (JObj []),
      \<lparr>table = Map.empty, replica = [Key ''job-42'' \<mapsto> record_of ''job-42'' ''h1''],
       parked = Map.empty, resumed = [''h1'' \<mapsto> Some state_job42],
       calls =
        [get_call (JStr ''job-42'') (Inr (JObj [(''Item'', record_of ''job-42'' ''h1'')])),
         signal_call (JStr ''h1'') (Inr (JObj [])),
         delete_call (JStr ''job-42'') (Inr (JObj []))]\<rparr>)"
proof -
  have "get_path (pathToIdWorkflow props_example) (JObj (event_job42 @
        [(''getResumeToken'', JObj [(''Item'', record_of ''job-42'' ''h1'')]),
         (''sendTaskSuccess'', JObj [])])) = Some (JStr ''job-42'')"
    by (simp add: props_example_def event_job42_def)
  then show ?thesis
    by (simp add: execute_sfnMain lookup_job42 signal_job42 run_deleteResumeToken)
       (simp add: world_job42_def)
qed

lemma execute_stale:
  "execute (sfnMain props_example) tok (JObj event_job42) world_stale =
     (Failed ''sendTaskSuccess'' Sfn_TaskTimedOut,
      world_stale\<lparr>calls :=
        [get_call (JStr ''job-42'') (Inr (JObj [(''Item'', record_of ''job-42'' ''h1'')])),
         signal_call (JStr ''h1'') (Inl Sfn_TaskTimedOut)]\<rparr>)"
  using get_path_string_at [OF event_job42_id]
  by (simp add: execute_sfnMain run_getResumeToken run_sendTaskSuccess
      update_conv' record_of_def world_stale_def event_job42_def)

lemma execute_no_id:
  "execute (sfnMain props_example) tok (JObj event_no_id) world_empty =
     (Failed ''getResumeToken'' DynamoDB_ValidationException,
      world_empty\<lparr>calls := [get_call (JStr []) (Inl DynamoDB_ValidationException)]\<rparr>)"
  using get_path_string_at [OF event_no_id_id]
  by (simp add: execute_sfnMain run_getResumeToken world_empty_def)

section \<open>The steps of two overlapping runs\<close>

lemma task_ids:
  "task_id (getResumeToken p) = ''getResumeToken''"
  "task_id sendTaskSuccess = ''sendTaskSuccess''"
  "task_id (deleteResumeToken p) = ''deleteResumeToken''"
  by (simp_all add: getResumeToken_def sendTaskSuccess_def deleteResumeToken_def)

text \<open>The three steps of a resume run, for an event that carries a job id.\<close>

lemma step_lookup:
  assumes "string_at (pathToIdWorkflow p) (JObj ev) = Some (key_string k)"
  shows "exec_step (Running tok (sfnMain p) (JObj ev)) w =
     (Running tok [sendTaskSuccess, deleteResumeToken p]
        (JObj (AList.update ''getResumeToken'' (item_answer (replica w k)) ev)),
      w\<lparr>calls := calls w @ [get_call (JStr (key_string k)) (Inr (item_answer (replica w k)))]\<rparr>)"
  using get_path_string_at [OF assms]
  by (simp add: sfnMain_def run_getResumeToken)

lemma step_signal_none:
  "exec_step (Running tok [sendTaskSuccess, deleteResumeToken p]
        (JObj (AList.update ''getResumeToken'' (JObj []) ev))) w = (Finished SKIPPED, w)"
  by (simp add: run_sendTaskSuccess update_conv' SKIPPED_def task_ids)

lemma step_signal_some:
  assumes "get_path [''token'', ''S''] item = Some (JStr t)"
  shows "exec_step (Running tok [sendTaskSuccess, deleteResumeToken p]
        (JObj (AList.update ''getResumeToken'' (JObj [(''Item'', item)]) ev))) w =
     (case parked w t of
        None \<Rightarrow> (Finished (Failed ''sendTaskSuccess'' Sfn_TaskTimedOut),
                 w\<lparr>calls := calls w @ [signal_call (JStr t) (Inl Sfn_TaskTimedOut)]\<rparr>)
      | Some pe \<Rightarrow>
          (Running tok [deleteResumeToken p]
             (JObj (AList.update ''sendTaskSuccess'' (JObj [])
                (AList.update ''getResumeToken'' (JObj [(''Item'', item)]) ev))),
           w\<lparr>parked := (parked w)(t := None),
             resumed := (resumed w)(t \<mapsto>
               apply_result_path (fst pe) (snd pe) (JObj [(''staus'', JStr ''resume'')])),
             calls := calls w @ [signal_call (JStr t) (Inr (JObj []))]\<rparr>))"
proof -
  have "get_path [''getResumeToken'', ''Item'', ''token'', ''S'']
      (JObj (AList.update ''getResumeToken'' (JObj [(''Item'', item)]) ev)) = Some (JStr t)"
    using assms by (simp add: update_conv')
  then show ?thesis
    by (simp add: run_sendTaskSuccess task_ids del: get_path.simps
        split: option.splits)
qed

lemma step_delete:
  assumes "string_at (pathToIdWorkflow p) (JObj ev) = Some (key_string k)"
    and "''getResumeToken'' \<notin> fst ` set ev" and "''sendTaskSuccess'' \<notin> fst ` set ev"
  shows "exec_step (Running tok [deleteResumeToken p]
        (JObj (AList.update ''sendTaskSuccess'' (JObj [])
           (AList.update ''getResumeToken'' x ev)))) w =
     (Finished (Succeeded (JObj [])),
      w\<lparr>table := (table w)(k := None),
        calls := calls w @ [delete_call (JStr (key_string k)) (Inr (JObj []))]\<rparr>)"
proof -
  let ?pw = "pathToIdWorkflow p"
  have k: "get_path ?pw (JObj ev) = Some (JStr (key_string k))"
    using assms(1) by (rule get_path_string_at)
  then obtain f fs where pw: "?pw = f # fs"
    by (cases ?pw) auto
  have "f \<in> fst ` set ev"
    using k unfolding pw by (rule get_path_field_known)
  with assms(2,3) have f: "f \<noteq> ''getResumeToken''" "f \<noteq> ''sendTaskSuccess''"
    by blast+
  have "get_path ?pw (JObj (AList.update ''sendTaskSuccess'' (JObj [])
           (AList.update ''getResumeToken'' x ev))) = Some (JStr (key_string k))"
    using k f unfolding pw by (simp add: get_path_update_other del: get_path.simps)
  then show ?thesis
    by (simp add: run_deleteResumeToken del: get_path.simps)
qed

lemma signals_simps [simp]:
  "signals [] = []"
  "signals (cs @ ds) = signals cs @ signals ds"
  "signals (get_call v r # cs) = signals cs"
  "signals (delete_call v r # cs) = signals cs"
  "signals (signal_call v r # cs) = signal_call v r # signals cs"
  by (simp_all add: signals_def get_call_def delete_call_def signal_call_def)

lemma accepted_simps [simp]:
  "accepted [] = []"
  "accepted (cs @ ds) = accepted cs @ accepted ds"
  "accepted (get_call v r # cs) = accepted cs"
  "accepted (delete_call v r # cs) = accepted cs"
  "accepted (signal_call v (Inr x) # cs) = signal_call v (Inr x) # accepted cs"
  "accepted (signal_call v (Inl e) # cs) = accepted cs"
  by (simp_all add: accepted_def signals_def get_call_def delete_call_def signal_call_def)

text \<open>Every action of a schedule keeps the two runs and the world balanced.\<close>

lemma balanced_sym: "balanced k item t w new s1 s2 \<longleftrightarrow> balanced k item t w new s2 s1"
  by (auto simp: balanced_def)

lemma balanced_propagate:
  "balanced k item t w new s1 s2 \<Longrightarrow> balanced k item t (propagate w) new s1 s2"
  by (simp add: balanced_def propagate_def)

lemma stage_step:
  assumes id: "string_at (pathToIdWorkflow p) (JObj ev) = Some (key_string k)"
    and fresh: "''getResumeToken'' \<notin> fst ` set ev" "''sendTaskSuccess'' \<notin> fst ` set ev"
    and tok: "get_path [''token'', ''S''] item = Some (JStr t)"
    and bal: "balanced k item t w new s1 s2"
    and cs: "calls w = cs @ new"
  shows "\<exists>s1' new'. fst (exec_step (at_stage p tk ev item s1) w) = at_stage p tk ev item s1'
      \<and> calls (snd (exec_step (at_stage p tk ev item s1) w)) = cs @ new'
      \<and> balanced k item t (snd (exec_step (at_stage p tk ev item s1) w)) new' s1' s2
      \<and> remaining s1' \<le> remaining s1 - 1"
proof (cases s1)
  case Lookup
  show ?thesis
  proof (cases "replica w k")
    case None
    then show ?thesis
      using bal cs Lookup
      by (intro exI [of _ Signal_none]
          exI [of _ "new @ [get_call (JStr (key_string k)) (Inr (JObj []))]"])
        (auto simp add: at_stage_def step_lookup [OF id] balanced_def won_def signalled_def
          blind_def split: if_splits)
  next
    case (Some it)
    then have "it = item"
      using bal by (auto simp: balanced_def split: if_splits)
    then show ?thesis
      using bal cs Lookup Some
      by (intro exI [of _ Signal_found]
          exI [of _ "new @ [get_call (JStr (key_string k)) (Inr (JObj [(''Item'', item)]))]"])
        (auto simp add: at_stage_def step_lookup [OF id] balanced_def won_def signalled_def
          blind_def split: if_splits)
  qed
next
  case Signal_found
  show ?thesis
  proof (cases "parked w t")
    case None
    then show ?thesis
      using bal cs Signal_found
      by (intro exI [of _ Rejected]
          exI [of _ "new @ [signal_call (JStr t) (Inl Sfn_TaskTimedOut)]"])
        (auto simp add: at_stage_def step_signal_some [OF tok] balanced_def won_def
          signalled_def blind_def simp del: exec_step.simps(3) split: if_splits)
  next
    case (Some pe)
    then show ?thesis
      using bal cs Signal_found
      by (intro exI [of _ Delete]
          exI [of _ "new @ [signal_call (JStr t) (Inr (JObj []))]"])
        (auto simp add: at_stage_def step_signal_some [OF tok] balanced_def won_def
          signalled_def blind_def simp del: exec_step.simps(3) split: if_splits)
  qed
next
  case Signal_none
  then show ?thesis
    using bal cs
    by (intro exI [of _ Skipped] exI [of _ new])
      (auto simp add: at_stage_def step_signal_none balanced_def won_def
        signalled_def blind_def simp del: exec_step.simps(3) split: if_splits)
next
  case Delete
  then show ?thesis
    using bal cs
    by (intro exI [of _ Done]
        exI [of _ "new @ [delete_call (JStr (key_string k)) (Inr (JObj []))]"])
      (auto simp add: at_stage_def step_delete [OF id fresh] balanced_def won_def
        signalled_def blind_def simp del: exec_step.simps(3) split: if_splits)
next
  case Done
  then show ?thesis
    using bal cs by (intro exI [of _ Done] exI [of _ new]) (simp add: at_stage_def)
next
  case Skipped
  then show ?thesis
    using bal cs by (intro exI [of _ Skipped] exI [of _ new]) (simp add: at_stage_def)
next
  case Rejected
  then show ?thesis
    using bal cs by (intro exI [of _ Rejected] exI [of _ new]) (simp add: at_stage_def)
qed

lemma interleave_balanced:
  assumes id1: "string_at (pathToIdWorkflow p) (JObj ev1) = Some (key_string k)"
    and fresh1: "''getResumeToken'' \<notin> fst ` set ev1" "''sendTaskSuccess'' \<notin> fst ` set ev1"
    and id2: "string_at (pathToIdWorkflow p) (JObj ev2) = Some (key_string k)"
    and fresh2: "''getResumeToken'' \<notin> fst ` set ev2" "''sendTaskSuccess'' \<notin> fst ` set ev2"
    and tok: "get_path [''token'', ''S''] item = Some (JStr t)"
  shows "balanced k item t w new s1 s2 \<Longrightarrow> calls w = cs @ new \<Longrightarrow>
     interleave sched (at_stage p tokA ev1 item s1, at_stage p tokB ev2 item s2, w) = (r1, r2, w')
     \<Longrightarrow> \<exists>s1' s2' new'. r1 = at_stage p tokA ev1 item s1' \<and> r2 = at_stage p tokB ev2 item s2'
          \<and> calls w' = cs @ new' \<and> balanced k item t w' new' s1' s2'
          \<and> remaining s1' \<le> remaining s1 - count_list sched First
          \<and> remaining s2' \<le> remaining s2 - count_list sched Second"
proof (induction sched arbitrary: w new s1 s2)
  case Nil
  then show ?case by auto
next
  case (Cons a sched)
  show ?case
  proof (cases a)
    case First
    obtain r w1 where st: "exec_step (at_stage p tokA ev1 item s1) w = (r, w1)"
      by (cases "exec_step (at_stage p tokA ev1 item s1) w")
    from stage_step [OF id1 fresh1 tok Cons.prems(1,2), of tokA] st
    obtain s1a new1 where a: "r = at_stage p tokA ev1 item s1a" "calls w1 = cs @ new1"
      "balanced k item t w1 new1 s1a s2" "remaining s1a \<le> remaining s1 - 1"
      by auto
    from Cons.prems(3) First st a(1)
    have "interleave sched (at_stage p tokA ev1 item s1a, at_stage p tokB ev2 item s2, w1)
        = (r1, r2, w')"
      by simp
    from Cons.IH [OF a(3) a(2) this] obtain s1' s2' new'
      where b: "r1 = at_stage p tokA ev1 item s1'" "r2 = at_stage p tokB ev2 item s2'"
        "calls w' = cs @ new'" "balanced k item t w' new' s1' s2'"
        "remaining s1' \<le> remaining s1a - count_list sched First"
        "remaining s2' \<le> remaining s2 - count_list sched Second"
      by blast
    from b(5) a(4) have "remaining s1' \<le> remaining s1 - count_list (a # sched) First"
      using First by simp
    with b First show ?thesis by auto
  next
    case Second
    obtain r w1 where st: "exec_step (at_stage p tokB ev2 item s2) w = (r, w1)"
      by (cases "exec_step (at_stage p tokB ev2 item s2) w")
    have bal: "balanced k item t w new s2 s1"
      using Cons.prems(1) by (simp add: balanced_sym)
    from stage_step [OF id2 fresh2 tok bal Cons.prems(2), of tokB] st
    obtain s2a new1 where a: "r = at_stage p tokB ev2 item s2a" "calls w1 = cs @ new1"
      "balanced k item t w1 new1 s2a s1" "remaining s2a \<le> remaining s2 - 1"
      by auto
    have a3: "balanced k item t w1 new1 s1 s2a"
      using a(3) by (simp add: balanced_sym)
    from Cons.prems(3) Second st a(1)
    have "interleave sched (at_stage p tokA ev1 item s1, at_stage p tokB ev2 item s2a, w1)
        = (r1, r2, w')"
      by simp
    from Cons.IH [OF a3 a(2) this] obtain s1' s2' new'
      where b: "r1 = at_stage p tokA ev1 item s1'" "r2 = at_stage p tokB ev2 item s2'"
        "calls w' = cs @ new'" "balanced k item t w' new' s1' s2'"
        "remaining s1' \<le> remaining s1 - count_list sched First"
        "remaining s2' \<le> remaining s2a - count_list sched Second"
      by blast
    from b(6) a(4) have "remaining s2' \<le> remaining s2 - count_list (a # sched) Second"
      using Second by simp
    with b Second show ?thesis by auto
  next
    case Propagate
    have c: "calls (propagate w) = cs @ new"
      using Cons.prems(2) by (simp add: propagate_def)
    from Cons.prems(3) Propagate
    have "interleave sched (at_stage p tokA ev1 item s1, at_stage p tokB ev2 item s2, propagate w)
        = (r1, r2, w')"
      by simp
    from Cons.IH [OF balanced_propagate [OF Cons.prems(1)] c this] Propagate
    show ?thesis by simp
  qed
qed

lemma balanced_finished:
  assumes "balanced k item t w new s1 s2" and "remaining s1 = 0" and "remaining s2 = 0"
  shows "table w k = None \<and> parked w t = None \<and> length (accepted new) = 1
     \<and> (((s1 = Done \<and> s2 = Skipped \<or> s1 = Skipped \<and> s2 = Done)
           \<and> length (signals new) = 1
           \<and> get_call (JStr (key_string k)) (Inr (JObj [])) \<in> set new)
        \<or> ((s1 = Done \<and> s2 = Rejected \<or> s1 = Rejected \<and> s2 = Done)
           \<and> length (signals new) = 2))"
  using assms
  by (cases s1; cases s2) (simp_all add: balanced_def won_def signalled_def blind_def)

text \<open>A run that is scheduled alone is the execution of its chain.\<close>

lemma interleave_finished:
  "interleave (replicate n First) (Finished out, r2, w) = (Finished out, r2, w)"
  by (induction n) simp_all

lemma interleave_alone:
  assumes "ts \<noteq> []" and "length ts \<le> n"
  shows "interleave (replicate n First) (Running tok ts s, r2, w) =
           (Finished (fst (execute ts tok s w)), r2, snd (execute ts tok s w))"
  using assms
proof (induction ts arbitrary: n s w)
  case Nil
  then show ?case by simp
next
  case (Cons t ts)
  then obtain m where n: "n = Suc m" and m: "length ts \<le> m"
    by (cases n) auto
  show ?case
  proof (cases "run_task t tok s w")
    case (Pair r w1)
    show ?thesis
    proof (cases r)
      case (TaskFailed e)
      then show ?thesis
        using Pair n by (simp add: interleave_finished)
    next
      case TaskParked
      then show ?thesis
        using Pair n by (simp add: interleave_finished)
    next
      case (TaskSucceeded s1)
      show ?thesis
      proof (cases "ts = []")
        case True
        then show ?thesis
          using Pair TaskSucceeded n by (simp add: interleave_finished)
      next
        case False
        then show ?thesis
          using Pair TaskSucceeded n Cons.IH [OF False m] by simp
      qed
    qed
  qed
qed

lemma record_job42_token:
  "get_path [''token'', ''S''] (record_of ''job-42'' ''h1'') = Some (JStr ''h1'')"
  by (simp add: record_of_def)

lemma interleave_overlap:
  "interleave overlap
     (Running ''a'' (sfnMain props_example) (JObj event_job42),
      Running ''b'' (sfnMain props_example) (JObj event_job42), world_job42) =
   (Finished (Succeeded (JObj [])),
    Finished (Failed ''sendTaskSuccess'' Sfn_TaskTimedOut),
    \<lparr>table = Map.empty, replica = [Key ''job-42'' \<mapsto> record_of ''job-42'' ''h1''],
     parked = Map.empty, resumed = [''h1'' \<mapsto> Some state_job42],
     calls =
       [get_call (JStr ''job-42'') (Inr (JObj [(''Item'', record_of ''job-42'' ''h1'')])),
        get_call (JStr ''job-42'') (Inr (JObj [(''Item'', record_of ''job-42'' ''h1'')])),
        signal_call (JStr ''h1'') (Inr (JObj [])),
        signal_call (JStr ''h1'') (Inl Sfn_TaskTimedOut),
        delete_call (JStr ''job-42'') (Inr (JObj []))]\<rparr>)"
proof -
  note steps = step_lookup [OF event_job42_id] step_signal_some [OF record_job42_token]
    step_delete [OF event_job42_id event_job42_fresh]
  show ?thesis
    by (simp add: overlap_def steps world_job42_def del: exec_step.simps(3))
qed

text \<open>
  Two runs one after the other: when the first run's delete has not propagated, the
  second run still finds the record and signals; when it has, the second run is skipped.
\<close>

lemma interleave_serial_stale:
  "interleave [First, First, First, Second, Second, Second]
     (Running ''a'' (sfnMain props_example) (JObj event_job42),
      Running ''b'' (sfnMain props_example) (JObj event_job42), world_job42) =
   (Finished (Succeeded (JObj [])),
    Finished (Failed ''sendTaskSuccess'' Sfn_TaskTimedOut),
    \<lparr>table = Map.empty, replica = [Key ''job-42'' \<mapsto> record_of ''job-42'' ''h1''],
     parked = Map.empty, resumed = [''h1'' \<mapsto> Some state_job42],
     calls =
       [get_call (JStr ''job-42'') (Inr (JObj [(''Item'', record_of ''job-42'' ''h1'')])),
        signal_call (JStr ''h1'') (Inr (JObj [])),
        delete_call (JStr ''job-42'') (Inr (JObj [])),
        get_call (JStr ''job-42'') (Inr (JObj [(''Item'', record_of ''job-42'' ''h1'')])),
        signal_call (JStr ''h1'') (Inl Sfn_TaskTimedOut)]\<rparr>)"
proof -
  note steps = step_lookup [OF event_job42_id] step_signal_some [OF record_job42_token]
    step_delete [OF event_job42_id event_job42_fresh]
  show ?thesis
    by (simp add: steps world_job42_def del: exec_step.simps(3))
qed

lemma interleave_serial_propagated:
  "interleave [First, First, First, Propagate, Second, Second, Second]
     (Running ''a'' (sfnMain props_example) (JObj event_job42),
      Running ''b'' (sfnMain props_example) (JObj event_job42), world_job42) =
   (Finished (Succeeded (JObj [])),
    Finished SKIPPED,
    \<lparr>table = Map.empty, replica = Map.empty,
     parked = Map.empty, resumed = [''h1'' \<mapsto> Some state_job42],
     calls =
       [get_call (JStr ''job-42'') (Inr (JObj [(''Item'', record_of ''job-42'' ''h1'')])),
        signal_call (JStr ''h1'') (Inr (JObj [])),
        delete_call (JStr ''job-42'') (Inr (JObj [])),
        get_call (JStr ''job-42'') (Inr (JObj []))]\<rparr>)"
proof -
  note steps = step_lookup [OF event_job42_id] step_signal_some [OF record_job42_token]
    step_delete [OF event_job42_id event_job42_fresh] step_signal_none
  show ?thesis
    by (simp add: steps world_job42_def propagate_def del: exec_step.simps(3))
qed

section \<open>Properties\<close>

subsection \<open>The pause task\<close>

text \<open>
  C1. When a record for the job id is already in the table, the pause task's insert is
  rejected with \<^verbatim>\<open>ConditionalCheckFailedException\<close> (the store's "already exists"): the
  table, and with it the stored record and its token, is unchanged, and the second
  execution is not parked.
\<close>

theorem insert_rejected_when_present:
  assumes "string_at (pathToIdPauseTask p) s = Some (key_string k)" and "table w k = Some item"
  shows "fst (run_task (putDbResumeToken p) tok s w) =
           TaskFailed DynamoDB_ConditionalCheckFailedException
       \<and> table (snd (run_task (putDbResumeToken p) tok s w)) = table w
       \<and> table (snd (run_task (putDbResumeToken p) tok s w)) k = Some item
       \<and> parked (snd (run_task (putDbResumeToken p) tok s w)) = parked w"
  using assms by (simp add: run_putDbResumeToken get_path_string_at)

theorem insert_rejected_when_present_witness:
  "string_at (pathToIdPauseTask props_example) state_job42 = Some (key_string (Key ''job-42''))
   \<and> table world_job42 (Key ''job-42'') = Some (record_of ''job-42'' ''h1'')
   \<and> fst (run_task (putDbResumeToken props_example) ''h2'' state_job42 world_job42) =
           TaskFailed DynamoDB_ConditionalCheckFailedException
   \<and> table (snd (run_task (putDbResumeToken props_example) ''h2'' state_job42 world_job42))
        (Key ''job-42'') = Some (record_of ''job-42'' ''h1'')"
proof -
  have h: "table world_job42 (Key ''job-42'') = Some (record_of ''job-42'' ''h1'')"
    by (simp add: world_job42_def)
  show ?thesis
    using state_job42_id h insert_rejected_when_present [OF state_job42_id h, of "''h2''"]
    by simp
qed

text \<open>
  C7. When the insert is rejected because the job id is already stored, the caller's
  execution fails in the pause task with that error, whatever states were to follow it;
  the task has no retrier and exactly one \<^verbatim>\<open>putItem\<close> call has been made.
\<close>

theorem duplicate_insert_fails_without_retry:
  assumes "string_at (pathToIdPauseTask p) s = Some (key_string k)" and "table w k \<noteq> None"
  shows "retry (putDbResumeToken p) = None
       \<and> execute (putDbResumeToken p # rest) tok s w =
           (Failed ''putDbResumeToken'' DynamoDB_ConditionalCheckFailedException,
            w\<lparr>calls := calls w @
                 [made ''dynamodb'' ''putItem'' (put_params (JStr (key_string k)) tok)
                    (Inl DynamoDB_ConditionalCheckFailedException)]\<rparr>)"
proof -
  have "task_id (putDbResumeToken p) = ''putDbResumeToken''" "retry (putDbResumeToken p) = None"
    by (simp_all add: putDbResumeToken_def)
  then show ?thesis
    using assms by (auto simp add: run_putDbResumeToken get_path_string_at)
qed

theorem duplicate_insert_fails_without_retry_witness:
  "string_at (pathToIdPauseTask props_example) state_job42 = Some (key_string (Key ''job-42''))
   \<and> table world_job42 (Key ''job-42'') \<noteq> None
   \<and> execute [putDbResumeToken props_example, sendTaskSuccess] ''h2'' state_job42 world_job42 =
        (Failed ''putDbResumeToken'' DynamoDB_ConditionalCheckFailedException,
         world_job42\<lparr>calls := calls world_job42 @
           [made ''dynamodb'' ''putItem'' (put_params (JStr ''job-42'') ''h2'')
              (Inl DynamoDB_ConditionalCheckFailedException)]\<rparr>)"
proof -
  have h: "table world_job42 (Key ''job-42'') \<noteq> None"
    by (simp add: world_job42_def)
  show ?thesis
    using h state_job42_id
      duplicate_insert_fails_without_retry [OF state_job42_id h, of "[sendTaskSuccess]" "''h2''"]
    by simp
qed

text \<open>
  C10. The pause task has \<^verbatim>\<open>resultPath\<close> \<^verbatim>\<open>DISCARD\<close>: once an execution is parked by
  it with state \<open>s\<close>, a resume signal on its token is accepted and, whatever output the
  signal carries, the execution leaves the pause task with the state \<open>s\<close> it entered
  with.
\<close>

theorem pause_task_discards_result:
  assumes "run_task (putDbResumeToken p) tok s w = (TaskParked, w1)"
      and "parked w2 tok = parked w1 tok"
  shows "resultPath (putDbResumeToken p) = None
       \<and> fst (call_aws ''sfn'' ''sendTaskSuccess''
               (JObj [(''TaskToken'', JStr tok), (''Output'', out)]) w2) = Inr (JObj [])
       \<and> resumed (snd (call_aws ''sfn'' ''sendTaskSuccess''
               (JObj [(''TaskToken'', JStr tok), (''Output'', out)]) w2)) tok = Some (Some s)"
proof -
  have "parked w1 tok = Some (None, s)"
    using assms(1)
    by (auto simp: run_putDbResumeToken split: option.splits json.splits if_splits)
  then have "parked w2 tok = Some (None, s)"
    using assms(2) by simp
  then show ?thesis
    by (simp add: call_sendTaskSuccess sendTaskSuccess_api_def string_at_def putDbResumeToken_def)
qed

theorem pause_task_discards_result_witness:
  "run_task (putDbResumeToken props_example) ''h1'' state_job42 world_empty =
     (TaskParked,
      world_written\<lparr>calls := [made ''dynamodb'' ''putItem'' (put_params (JStr ''job-42'') ''h1'')
         (Inr (JObj []))]\<rparr>)
   \<and> resumed (snd (call_aws ''sfn'' ''sendTaskSuccess''
         (JObj [(''TaskToken'', JStr ''h1''), (''Output'', JObj [(''staus'', JStr ''resume'')])])
         (world_written\<lparr>calls := [made ''dynamodb'' ''putItem'' (put_params (JStr ''job-42'') ''h1'')
            (Inr (JObj []))]\<rparr>))) ''h1'' = Some (Some state_job42)"
  using pause_job42 pause_task_discards_result [OF pause_job42 refl]
  by simp

subsection \<open>The store\<close>

text \<open>
  C5, as the code has it. The lookup is an eventually consistent read. Right after the
  pause task has stored the token \<^verbatim>\<open>h1\<close> under \<^verbatim>\<open>job-42\<close>, before the write has
  propagated, the lookup for \<^verbatim>\<open>job-42\<close> succeeds with an answer that has no item, so no
  token is read from it.
\<close>

theorem lookup_before_propagation:
  "run_task (putDbResumeToken props_example) ''h1'' state_job42 world_empty =
     (TaskParked,
      world_written\<lparr>calls := [made ''dynamodb'' ''putItem'' (put_params (JStr ''job-42'') ''h1'')
         (Inr (JObj []))]\<rparr>)
   \<and> fst (run_task (getResumeToken props_example) ''run'' (JObj event_job42)
        (world_written\<lparr>calls := [made ''dynamodb'' ''putItem'' (put_params (JStr ''job-42'') ''h1'')
           (Inr (JObj []))]\<rparr>))
      = TaskSucceeded (JObj (event_job42 @ [(''getResumeToken'', JObj [])]))
   \<and> string_at [''getResumeToken'', ''Item'', ''token'', ''S'']
        (JObj (event_job42 @ [(''getResumeToken'', JObj [])])) = None"
  by (simp add: pause_job42 lookup_written) (simp add: string_at_def event_job42_def)

text \<open>
  C5, amended. Round trip, once each write has propagated to the copy the lookup reads:
  after the pause task has stored the token \<open>h\<close> under the job id \<open>k\<close> and the write has
  propagated, the lookup task for an event with that job id returns an item whose token
  is \<open>h\<close>; after the delete task for that event, once the delete has propagated, the
  lookup returns no item.
\<close>

theorem store_round_trip:
  assumes "run_task (putDbResumeToken p) h s w = (TaskParked, w1)"
      and "string_at (pathToIdPauseTask p) s = Some (key_string k)"
      and "string_at (pathToIdWorkflow p) (JObj ev) = Some (key_string k)"
  shows "\<exists>s1 w2 s2 w3 s3 w4.
           run_task (getResumeToken p) tok (JObj ev) (propagate w1) = (TaskSucceeded s1, w2)
         \<and> string_at [''getResumeToken'', ''Item'', ''token'', ''S''] s1 = Some h
         \<and> run_task (deleteResumeToken p) tok (JObj ev) w2 = (TaskSucceeded s2, w3)
         \<and> run_task (getResumeToken p) tok (JObj ev) (propagate w3) = (TaskSucceeded s3, w4)
         \<and> get_path [''getResumeToken''] s3 = Some (JObj [])
         \<and> get_path [''getResumeToken'', ''Item''] s3 = None"
proof -
  have t1: "table w1 k = Some (record_of (key_string k) h)"
    using assms(1,2)
    by (auto simp: run_putDbResumeToken get_path_string_at split: if_splits)
  have g: "get_path (pathToIdWorkflow p) (JObj ev) = Some (JStr (key_string k))"
    using assms(3) by (rule get_path_string_at)
  show ?thesis
    using t1 g
    by (simp add: run_getResumeToken run_deleteResumeToken string_at_def update_conv'
        record_of_def propagate_def)
qed

theorem store_round_trip_witness:
  "\<exists>s1 w2 s2 w3 s3 w4.
     run_task (getResumeToken props_example) ''run'' (JObj event_job42)
       (propagate (world_written\<lparr>calls :=
          [made ''dynamodb'' ''putItem'' (put_params (JStr ''job-42'') ''h1'')
             (Inr (JObj []))]\<rparr>)) = (TaskSucceeded s1, w2)
   \<and> string_at [''getResumeToken'', ''Item'', ''token'', ''S''] s1 = Some ''h1''
   \<and> run_task (deleteResumeToken props_example) ''run'' (JObj event_job42) w2 =
        (TaskSucceeded s2, w3)
   \<and> run_task (getResumeToken props_example) ''run'' (JObj event_job42) (propagate w3) =
        (TaskSucceeded s3, w4)
   \<and> get_path [''getResumeToken''] s3 = Some (JObj [])
   \<and> get_path [''getResumeToken'', ''Item''] s3 = None"
  by (rule store_round_trip [OF pause_job42 state_job42_id event_job42_id])

subsection \<open>The resume state machine\<close>

text \<open>
  C2, as the code has it. A rejected signal ends the run: in the scenario where the
  engine no longer waits on the stored token, the run fails in \<^verbatim>\<open>sendTaskSuccess\<close>
  after the calls \<^verbatim>\<open>getItem\<close> and \<^verbatim>\<open>sendTaskSuccess\<close>, no delete is attempted and the
  record is still in the table.
\<close>

theorem rejected_signal_leaves_record:
  "fst (execute (sfnMain props_example) ''run'' (JObj event_job42) world_stale) =
     Failed ''sendTaskSuccess'' Sfn_TaskTimedOut
   \<and> map c_action (calls (snd (execute (sfnMain props_example) ''run'' (JObj event_job42) world_stale)))
       = [''getItem'', ''sendTaskSuccess'']
   \<and> table (snd (execute (sfnMain props_example) ''run'' (JObj event_job42) world_stale))
        (Key ''job-42'') = Some (record_of ''job-42'' ''h1'')"
  by (simp add: execute_stale get_call_def signal_call_def) (simp add: world_stale_def)

text \<open>
  C2, amended. In every run, a signal that the engine rejected ends the run as failed in
  \<^verbatim>\<open>sendTaskSuccess\<close> with no \<^verbatim>\<open>deleteItem\<close> call and the table unchanged. After a
  signal that the engine accepted, the run enters the delete step: it calls
  \<^verbatim>\<open>deleteItem\<close>, unless the job id can no longer be read at \<^verbatim>\<open>pathToIdWorkflow\<close> in the
  state, in which case the run fails in \<^verbatim>\<open>deleteResumeToken\<close> before the call. A
  \<^verbatim>\<open>deleteItem\<close> call is made only in a run whose signal was accepted.
\<close>

theorem delete_follows_accepted_signal_only:
  assumes "execute (sfnMain p) tok s w = (out, w')"
  shows "\<exists>new. calls w' = calls w @ new
     \<and> (\<forall>c \<in> set new. c_action c = ''sendTaskSuccess'' \<longrightarrow>
          (case c_result c of
             Inl e \<Rightarrow> out = Failed ''sendTaskSuccess'' e
                    \<and> (\<forall>d \<in> set new. c_action d \<noteq> ''deleteItem'') \<and> table w' = table w
           | Inr r \<Rightarrow> (\<exists>d \<in> set new. c_action d = ''deleteItem'')
                    \<or> out = Failed ''deleteResumeToken'' States_Runtime))
     \<and> (\<forall>d \<in> set new. c_action d = ''deleteItem'' \<longrightarrow>
          (\<exists>c \<in> set new. c_action c = ''sendTaskSuccess'' \<and> c_result c = Inr (JObj [])))"
  using assms
  by (cases rule: sfnMain_shapes)
     (simp_all add: get_call_def signal_call_def delete_call_def)

theorem delete_follows_accepted_signal_only_witness:
  "\<exists>new.
     calls \<lparr>table = Map.empty, replica = [Key ''job-42'' \<mapsto> record_of ''job-42'' ''h1''],
       parked = Map.empty, resumed = [''h1'' \<mapsto> Some state_job42],
       calls =
        [get_call (JStr ''job-42'') (Inr (JObj [(''Item'', record_of ''job-42'' ''h1'')])),
         signal_call (JStr ''h1'') (Inr (JObj [])),
         delete_call (JStr ''job-42'') (Inr (JObj []))]\<rparr> = calls world_job42 @ new
     \<and> signal_call (JStr ''h1'') (Inr (JObj [])) \<in> set new
     \<and> delete_call (JStr ''job-42'') (Inr (JObj [])) \<in> set new"
proof -
  from delete_follows_accepted_signal_only [OF execute_job42 [of "''run''"]]
  obtain new where "calls \<lparr>table = Map.empty,
       replica = [Key ''job-42'' \<mapsto> record_of ''job-42'' ''h1''],
       parked = Map.empty, resumed = [''h1'' \<mapsto> Some state_job42],
       calls =
        [get_call (JStr ''job-42'') (Inr (JObj [(''Item'', record_of ''job-42'' ''h1'')])),
         signal_call (JStr ''h1'') (Inr (JObj [])),
         delete_call (JStr ''job-42'') (Inr (JObj []))]\<rparr> = calls world_job42 @ new"
    by blast
  then show ?thesis
    by (auto simp add: world_job42_def)
qed

text \<open>
  C3, as the code has it. For an event whose job id is the empty string, which has no
  record, DynamoDB refuses the key: the run fails in \<^verbatim>\<open>getResumeToken\<close> with a
  \<^verbatim>\<open>ValidationException\<close>, which is not the terminal state \<open>SKIPPED\<close>.
\<close>

theorem empty_job_id_fails_lookup:
  "string_at (pathToIdWorkflow props_example) (JObj event_no_id) = Some []
   \<and> fst (execute (sfnMain props_example) ''run'' (JObj event_no_id) world_empty) =
        Failed ''getResumeToken'' DynamoDB_ValidationException
   \<and> Failed ''getResumeToken'' DynamoDB_ValidationException \<noteq> SKIPPED"
  by (simp add: execute_no_id event_no_id_id SKIPPED_def)

text \<open>
  C3, amended. For an event whose job id has no record, neither in the table nor in the
  copy the lookup reads: when the job id is a string DynamoDB takes as a key, the run ends
  in the terminal state \<open>SKIPPED\<close> and the only call it has made is the lookup; when it
  is not, the run fails in \<^verbatim>\<open>getResumeToken\<close> on the refused lookup. In both cases the
  engine's signal API is not called and the table, the parked executions and the resumed
  executions are as before.
\<close>

theorem resume_without_record_is_skipped:
  assumes "string_at (pathToIdWorkflow p) (JObj ev) = Some s"
      and "valid_key s \<longrightarrow> table w (Key s) = None \<and> replica w (Key s) = None"
  shows "execute (sfnMain p) tok (JObj ev) w =
           (if valid_key s
            then (SKIPPED, w\<lparr>calls := calls w @ [get_call (JStr s) (Inr (JObj []))]\<rparr>)
            else (Failed ''getResumeToken'' DynamoDB_ValidationException,
                  w\<lparr>calls := calls w @ [get_call (JStr s) (Inl DynamoDB_ValidationException)]\<rparr>))"
  using assms(2) get_path_string_at [OF assms(1)]
  by (simp add: execute_sfnMain run_getResumeToken run_sendTaskSuccess SKIPPED_def update_conv')

theorem resume_without_record_is_skipped_witness:
  "string_at (pathToIdWorkflow props_example) (JObj event_job42) = Some ''job-42''
   \<and> valid_key ''job-42''
   \<and> table world_empty (Key ''job-42'') = None
   \<and> replica world_empty (Key ''job-42'') = None
   \<and> execute (sfnMain props_example) ''run'' (JObj event_job42) world_empty =
        (SKIPPED, world_empty\<lparr>calls := calls world_empty @
           [get_call (JStr ''job-42'') (Inr (JObj []))]\<rparr>)"
proof -
  have i: "string_at (pathToIdWorkflow props_example) (JObj event_job42) = Some ''job-42''"
    using event_job42_id by simp
  have h: "valid_key ''job-42'' \<longrightarrow>
      table world_empty (Key ''job-42'') = None \<and> replica world_empty (Key ''job-42'') = None"
    by (simp add: world_empty_def)
  show ?thesis
    using i h resume_without_record_is_skipped [OF i h, of "''run''"]
    by simp
qed



text \<open>
  C8. Every signal a run sends carries the output \<^verbatim>\<open>{ staus: "resume" }\<close>, the literal of
  the task definition, whatever the event, the table and the engine hold.
\<close>

theorem resume_payload_is_fixed:
  assumes "execute (sfnMain p) tok s w = (out, w')"
  shows "\<exists>new. calls w' = calls w @ new
     \<and> (\<forall>c \<in> set new. c_action c = ''sendTaskSuccess'' \<longrightarrow>
          get_path [''Output''] (c_params c) = Some (JObj [(''staus'', JStr ''resume'')]))"
  using assms
  by (cases rule: sfnMain_shapes)
     (simp_all add: get_call_def signal_call_def delete_call_def signal_params_def)

theorem resume_payload_is_fixed_witness:
  "\<exists>new.
     calls \<lparr>table = Map.empty, replica = [Key ''job-42'' \<mapsto> record_of ''job-42'' ''h1''],
       parked = Map.empty, resumed = [''h1'' \<mapsto> Some state_job42],
       calls =
        [get_call (JStr ''job-42'') (Inr (JObj [(''Item'', record_of ''job-42'' ''h1'')])),
         signal_call (JStr ''h1'') (Inr (JObj [])),
         delete_call (JStr ''job-42'') (Inr (JObj []))]\<rparr> = calls world_job42 @ new
     \<and> (\<forall>c \<in> set new. c_action c = ''sendTaskSuccess'' \<longrightarrow>
          get_path [''Output''] (c_params c) = Some (JObj [(''staus'', JStr ''resume'')]))"
  by (rule resume_payload_is_fixed [OF execute_job42 [of "''run''"]])

text \<open>
  C9. For an event that has no field named \<^verbatim>\<open>getResumeToken\<close> or \<^verbatim>\<open>sendTaskSuccess\<close> of
  its own (the fields of an EventBridge event are fixed and are not these): the lookup
  step changes only the field \<^verbatim>\<open>getResumeToken\<close> of the state and the signal step only
  the field \<^verbatim>\<open>sendTaskSuccess\<close>, every field of the event is unchanged after both, the
  path \<^verbatim>\<open>pathToIdWorkflow\<close> reads in the state the delete step receives the job id it
  read in the event, and the delete step deletes the record of that job id, the one the
  lookup asked for.
\<close>

theorem delete_reads_the_looked_up_id:
  assumes "''getResumeToken'' \<notin> fst ` set ev" and "''sendTaskSuccess'' \<notin> fst ` set ev"
      and "run_task (getResumeToken p) tok (JObj ev) w = (TaskSucceeded s1, w1)"
      and "run_task sendTaskSuccess tok s1 w1 = (TaskSucceeded s2, w2)"
  shows "(\<forall>f. f \<noteq> ''getResumeToken'' \<longrightarrow> get_path [f] s1 = get_path [f] (JObj ev))
       \<and> (\<forall>f. f \<noteq> ''sendTaskSuccess'' \<longrightarrow> get_path [f] s2 = get_path [f] s1)
       \<and> (\<forall>f \<in> fst ` set ev. get_path [f] s2 = get_path [f] (JObj ev))
       \<and> (\<exists>k. get_path (pathToIdWorkflow p) (JObj ev) = Some (JStr (key_string k))
            \<and> get_path (pathToIdWorkflow p) s2 = Some (JStr (key_string k))
            \<and> calls w1 = calls w @
                [get_call (JStr (key_string k)) (Inr (item_answer (replica w k)))]
            \<and> run_task (deleteResumeToken p) tok s2 w2 =
                (TaskSucceeded (JObj []),
                 w2\<lparr>table := (table w2)(k := None),
                    calls := calls w2 @ [delete_call (JStr (key_string k)) (Inr (JObj []))]\<rparr>))"
proof -
  let ?pw = "pathToIdWorkflow p"
  from assms(3) obtain x where x: "get_path ?pw (JObj ev) = Some (JStr x)" "valid_key x"
    and s1x: "s1 = JObj (AList.update ''getResumeToken'' (item_answer (replica w (Key x))) ev)"
    and w1x: "w1 = w\<lparr>calls := calls w @
        [get_call (JStr x) (Inr (item_answer (replica w (Key x))))]\<rparr>"
    by (auto simp: run_getResumeToken split: option.splits json.splits if_splits)
  define k where "k = Key x"
  have kx: "key_string k = x"
    using x(2) by (simp add: k_def)
  have k: "get_path ?pw (JObj ev) = Some (JStr (key_string k))"
    using x(1) kx by simp
  have s1: "s1 = JObj (AList.update ''getResumeToken'' (item_answer (replica w k)) ev)"
    using s1x by (simp add: k_def)
  have w1: "w1 = w\<lparr>calls := calls w @
      [get_call (JStr (key_string k)) (Inr (item_answer (replica w k)))]\<rparr>"
    using w1x kx by (simp add: k_def)
  from assms(4) have s2: "s2 = JObj (AList.update ''sendTaskSuccess'' (JObj [])
      (AList.update ''getResumeToken'' (item_answer (replica w k)) ev))"
    unfolding s1 run_sendTaskSuccess
    by (auto simp del: get_path.simps split: option.splits json.splits)
  from k obtain f fs where pw: "?pw = f # fs"
    by (cases ?pw) auto
  have "f \<in> fst ` set ev"
    using k unfolding pw by (rule get_path_field_known)
  with assms(1,2) have f: "f \<noteq> ''getResumeToken''" "f \<noteq> ''sendTaskSuccess''"
    by blast+
  have k2: "get_path ?pw s2 = Some (JStr (key_string k))"
    using k f unfolding pw s2 by (simp add: get_path_update_other del: get_path.simps)
  have a: "\<forall>f. f \<noteq> ''getResumeToken'' \<longrightarrow> get_path [f] s1 = get_path [f] (JObj ev)"
    unfolding s1 by (simp add: get_path_update_other del: get_path.simps)
  have b: "\<forall>f. f \<noteq> ''sendTaskSuccess'' \<longrightarrow> get_path [f] s2 = get_path [f] s1"
    unfolding s1 s2 by (simp add: get_path_update_other del: get_path.simps)
  have c: "\<forall>f \<in> fst ` set ev. get_path [f] s2 = get_path [f] (JObj ev)"
  proof
    fix g assume "g \<in> fst ` set ev"
    with assms(1,2) have "g \<noteq> ''getResumeToken''" "g \<noteq> ''sendTaskSuccess''"
      by blast+
    then show "get_path [g] s2 = get_path [g] (JObj ev)"
      unfolding s2 by (simp add: get_path_update_other del: get_path.simps)
  qed
  have d: "run_task (deleteResumeToken p) tok s2 w2 =
      (TaskSucceeded (JObj []),
       w2\<lparr>table := (table w2)(k := None),
          calls := calls w2 @ [delete_call (JStr (key_string k)) (Inr (JObj []))]\<rparr>)"
    by (simp add: run_deleteResumeToken k2)
  have e: "\<exists>k. get_path (pathToIdWorkflow p) (JObj ev) = Some (JStr (key_string k))
      \<and> get_path (pathToIdWorkflow p) s2 = Some (JStr (key_string k))
      \<and> calls w1 = calls w @
          [get_call (JStr (key_string k)) (Inr (item_answer (replica w k)))]
      \<and> run_task (deleteResumeToken p) tok s2 w2 =
          (TaskSucceeded (JObj []),
           w2\<lparr>table := (table w2)(k := None),
              calls := calls w2 @ [delete_call (JStr (key_string k)) (Inr (JObj []))]\<rparr>)"
    using k k2 w1 d by (intro exI [of _ k]) simp
  show ?thesis
    by (rule conjI [OF a conjI [OF b conjI [OF c e]]])
qed

theorem delete_reads_the_looked_up_id_witness:
  "get_path [''detail''] (JObj (event_job42 @
        [(''getResumeToken'', JObj [(''Item'', record_of ''job-42'' ''h1'')]),
         (''sendTaskSuccess'', JObj [])])) = get_path [''detail''] (JObj event_job42)
   \<and> get_path (pathToIdWorkflow props_example) (JObj (event_job42 @
        [(''getResumeToken'', JObj [(''Item'', record_of ''job-42'' ''h1'')]),
         (''sendTaskSuccess'', JObj [])])) = Some (JStr ''job-42'')
   \<and> fst (run_task (deleteResumeToken props_example) ''run''
        (JObj (event_job42 @
          [(''getResumeToken'', JObj [(''Item'', record_of ''job-42'' ''h1'')]),
           (''sendTaskSuccess'', JObj [])]))
        (world_job42\<lparr>parked := Map.empty,
          resumed := [''h1'' \<mapsto> Some state_job42],
          calls :=
            [get_call (JStr ''job-42'') (Inr (JObj [(''Item'', record_of ''job-42'' ''h1'')])),
             signal_call (JStr ''h1'') (Inr (JObj []))]\<rparr>)) = TaskSucceeded (JObj [])
   \<and> table (snd (run_task (deleteResumeToken props_example) ''run''
        (JObj (event_job42 @
          [(''getResumeToken'', JObj [(''Item'', record_of ''job-42'' ''h1'')]),
           (''sendTaskSuccess'', JObj [])]))
        (world_job42\<lparr>parked := Map.empty,
          resumed := [''h1'' \<mapsto> Some state_job42],
          calls :=
            [get_call (JStr ''job-42'') (Inr (JObj [(''Item'', record_of ''job-42'' ''h1'')])),
             signal_call (JStr ''h1'') (Inr (JObj []))]\<rparr>))) (Key ''job-42'') = None"
proof -
  have d: "''detail'' \<in> fst ` set event_job42"
    by (simp add: event_job42_def)
  have g: "get_path (pathToIdWorkflow props_example) (JObj event_job42) = Some (JStr ''job-42'')"
    using get_path_string_at [OF event_job42_id] by simp
  from delete_reads_the_looked_up_id
    [OF event_job42_fresh lookup_job42 [of "''run''"] signal_job42 [of "''run''"]]
  obtain k where k: "get_path (pathToIdWorkflow props_example) (JObj event_job42)
        = Some (JStr (key_string k))"
    and rest: "get_path [''detail''] (JObj (event_job42 @
        [(''getResumeToken'', JObj [(''Item'', record_of ''job-42'' ''h1'')]),
         (''sendTaskSuccess'', JObj [])])) = get_path [''detail''] (JObj event_job42)"
      "get_path (pathToIdWorkflow props_example) (JObj (event_job42 @
        [(''getResumeToken'', JObj [(''Item'', record_of ''job-42'' ''h1'')]),
         (''sendTaskSuccess'', JObj [])])) = Some (JStr (key_string k))"
      "run_task (deleteResumeToken props_example) ''run''
        (JObj (event_job42 @
          [(''getResumeToken'', JObj [(''Item'', record_of ''job-42'' ''h1'')]),
           (''sendTaskSuccess'', JObj [])]))
        (world_job42\<lparr>parked := Map.empty,
          resumed := [''h1'' \<mapsto> Some state_job42],
          calls :=
            [get_call (JStr ''job-42'') (Inr (JObj [(''Item'', record_of ''job-42'' ''h1'')])),
             signal_call (JStr ''h1'') (Inr (JObj []))]\<rparr>) =
       (TaskSucceeded (JObj []),
        world_job42\<lparr>parked := Map.empty,
          resumed := [''h1'' \<mapsto> Some state_job42],
          calls :=
            [get_call (JStr ''job-42'') (Inr (JObj [(''Item'', record_of ''job-42'' ''h1'')])),
             signal_call (JStr ''h1'') (Inr (JObj []))]\<rparr>
         \<lparr>table := (table (world_job42\<lparr>parked := Map.empty,
              resumed := [''h1'' \<mapsto> Some state_job42],
              calls :=
                [get_call (JStr ''job-42'')
                   (Inr (JObj [(''Item'', record_of ''job-42'' ''h1'')])),
                 signal_call (JStr ''h1'') (Inr (JObj []))]\<rparr>))(k := None),
           calls := calls (world_job42\<lparr>parked := Map.empty,
              resumed := [''h1'' \<mapsto> Some state_job42],
              calls :=
                [get_call (JStr ''job-42'')
                   (Inr (JObj [(''Item'', record_of ''job-42'' ''h1'')])),
                 signal_call (JStr ''h1'') (Inr (JObj []))]\<rparr>) @
             [delete_call (JStr (key_string k)) (Inr (JObj []))]\<rparr>)"
    using d by auto
  from k g have "key_string k = ''job-42''"
    by simp
  then have "k = Key ''job-42''"
    by (metis Key_string)
  with rest show ?thesis
    by simp
qed

subsection \<open>Two resume runs for one job id\<close>

text \<open>
  C6, as the code has it. When two runs for the job id \<^verbatim>\<open>job-42\<close> overlap so that both
  look the record up before either deletes it, both call the engine's signal API: two
  signal calls are made, and the run whose signal the engine rejects ends failed in
  \<^verbatim>\<open>sendTaskSuccess\<close>, which is not the terminal state \<open>SKIPPED\<close>.
\<close>

theorem overlapping_resumes_signal_twice:
  "length (signals (calls (snd (snd (interleave overlap
     (Running ''a'' (sfnMain props_example) (JObj event_job42),
      Running ''b'' (sfnMain props_example) (JObj event_job42), world_job42)))))) = 2
   \<and> fst (snd (interleave overlap
     (Running ''a'' (sfnMain props_example) (JObj event_job42),
      Running ''b'' (sfnMain props_example) (JObj event_job42), world_job42)))
      = Finished (Failed ''sendTaskSuccess'' Sfn_TaskTimedOut)
   \<and> Failed ''sendTaskSuccess'' Sfn_TaskTimedOut \<noteq> SKIPPED"
  by (simp add: interleave_overlap SKIPPED_def)

text \<open>
  C6, amended. Two runs for events with the same job id, whose record is stored and
  visible to the lookup and whose token the engine waits on, under any schedule that
  gives each run its three steps, in any order and with the writes propagating to the
  lookup's copy at any points: both runs finish, the engine accepts exactly one signal,
  the record is deleted and the engine no longer waits on the token. Either exactly one
  signal call is made, and the other run, whose lookup found no record, ends in
  \<open>SKIPPED\<close>; or two signal calls are made, one run succeeds and the other ends failed in
  \<^verbatim>\<open>sendTaskSuccess\<close> because the engine rejected its signal.
\<close>

theorem concurrent_resumes:
  assumes id1: "string_at (pathToIdWorkflow p) (JObj ev1) = Some (key_string k)"
    and fresh1: "''getResumeToken'' \<notin> fst ` set ev1" "''sendTaskSuccess'' \<notin> fst ` set ev1"
    and id2: "string_at (pathToIdWorkflow p) (JObj ev2) = Some (key_string k)"
    and fresh2: "''getResumeToken'' \<notin> fst ` set ev2" "''sendTaskSuccess'' \<notin> fst ` set ev2"
    and rec: "table w k = Some item" "replica w k = Some item"
      "get_path [''token'', ''S''] item = Some (JStr t)"
    and pk: "parked w t = Some pe"
    and sched: "3 \<le> count_list sched First" "3 \<le> count_list sched Second"
    and run: "interleave sched
        (Running tokA (sfnMain p) (JObj ev1), Running tokB (sfnMain p) (JObj ev2), w) = (r1, r2, w')"
  shows "\<exists>o1 o2 new. r1 = Finished o1 \<and> r2 = Finished o2 \<and> calls w' = calls w @ new
      \<and> length (accepted new) = 1 \<and> table w' k = None \<and> parked w' t = None
      \<and> ((o1 = Succeeded (JObj []) \<and> o2 = SKIPPED \<or> o1 = SKIPPED \<and> o2 = Succeeded (JObj []))
            \<and> length (signals new) = 1
            \<and> get_call (JStr (key_string k)) (Inr (JObj [])) \<in> set new
          \<or> (o1 = Succeeded (JObj []) \<and> o2 = Failed ''sendTaskSuccess'' Sfn_TaskTimedOut
              \<or> o1 = Failed ''sendTaskSuccess'' Sfn_TaskTimedOut \<and> o2 = Succeeded (JObj []))
            \<and> length (signals new) = 2)"
proof -
  have b0: "balanced k item t w [] Lookup Lookup"
    using rec(1,2) pk by (simp add: balanced_def won_def signalled_def blind_def)
  have r0: "interleave sched
      (at_stage p tokA ev1 item Lookup, at_stage p tokB ev2 item Lookup, w) = (r1, r2, w')"
    using run by (simp add: at_stage_def)
  from interleave_balanced [OF id1 fresh1 id2 fresh2 rec(3) b0 _ r0, of "calls w"]
  obtain s1 s2 new where s: "r1 = at_stage p tokA ev1 item s1" "r2 = at_stage p tokB ev2 item s2"
    "calls w' = calls w @ new" "balanced k item t w' new s1 s2"
    "remaining s1 \<le> remaining Lookup - count_list sched First"
    "remaining s2 \<le> remaining Lookup - count_list sched Second"
    by auto
  from s(5,6) sched have z: "remaining s1 = 0" "remaining s2 = 0"
    by simp_all
  from balanced_finished [OF s(4) z] s(1,2,3) z show ?thesis
    by (cases s1; cases s2) (auto simp add: at_stage_def)
qed

theorem concurrent_resumes_witness:
  "\<exists>o1 o2 new.
     Finished (Succeeded (JObj [])) = Finished o1
   \<and> Finished (Failed ''sendTaskSuccess'' Sfn_TaskTimedOut) = Finished o2
   \<and> [get_call (JStr ''job-42'') (Inr (JObj [(''Item'', record_of ''job-42'' ''h1'')])),
       get_call (JStr ''job-42'') (Inr (JObj [(''Item'', record_of ''job-42'' ''h1'')])),
       signal_call (JStr ''h1'') (Inr (JObj [])),
       signal_call (JStr ''h1'') (Inl Sfn_TaskTimedOut),
       delete_call (JStr ''job-42'') (Inr (JObj []))] = calls world_job42 @ new
   \<and> length (accepted new) = 1
   \<and> length (signals new) = 2
   \<and> (o1 = Succeeded (JObj []) \<and> o2 = Failed ''sendTaskSuccess'' Sfn_TaskTimedOut
      \<or> o1 = Failed ''sendTaskSuccess'' Sfn_TaskTimedOut \<and> o2 = Succeeded (JObj []))"
proof -
  have r: "table world_job42 (Key ''job-42'') = Some (record_of ''job-42'' ''h1'')"
    "replica world_job42 (Key ''job-42'') = Some (record_of ''job-42'' ''h1'')"
    by (simp_all add: world_job42_def)
  have pk: "parked world_job42 ''h1'' = Some (None, state_job42)"
    by (simp add: world_job42_def)
  have s: "3 \<le> count_list overlap First" "3 \<le> count_list overlap Second"
    by (simp_all add: overlap_def)
  have c: "calls world_job42 = []"
    by (simp add: world_job42_def)
  from concurrent_resumes [OF event_job42_id event_job42_fresh event_job42_id event_job42_fresh
      r record_job42_token pk s interleave_overlap]
  show ?thesis
    by (auto simp add: c SKIPPED_def)
qed

end
